theory Spec2Isabelle
  imports
    Complex_Main
    "HOL-Library.Char_ord"
    "HOL-Library.List_Lexorder"
    "HOL-Library.Product_Lexorder"
    "HOL-Library.AList"
    "HOL-Library.Multiset"
    "HOL-Library.Log_Nat"
begin

section \<open>The JavaScript Date object, as far as the server uses it\<close>

text \<open>
  The storage layer builds its date bounds with \<^verbatim>\<open>new Date(year, monthIndex, day)\<close>,
  reads them back with \<^verbatim>\<open>getFullYear()\<close>, \<^verbatim>\<open>getMonth()\<close>, \<^verbatim>\<open>getDate()\<close> and turns them
  into the text of a calendar day with \<^verbatim>\<open>toISOString().split('T')[0]\<close>.
  These are modelled after the ECMAScript definitions: a time value is a number of
  milliseconds since 1970-01-01T00:00:00Z, the constructor and the getters work in local
  time, and \<^verbatim>\<open>toISOString\<close> works in UTC.
  The local time zone adjustment \<open>tza\<close> (milliseconds to add to UTC to get local time) is
  a parameter of the model, taken as constant (no daylight-saving transitions).
\<close>

definition msPerDay :: int where
  "msPerDay = 86400000"

definition Day :: "int \<Rightarrow> int" where
  "Day t = t div msPerDay"

definition InLeapYear :: "int \<Rightarrow> bool" where
  "InLeapYear y = (if y mod 4 \<noteq> 0 then False else if y mod 100 \<noteq> 0 then True
                   else if y mod 400 \<noteq> 0 then False else True)"

definition DaysInYear :: "int \<Rightarrow> int" where
  "DaysInYear y = (if InLeapYear y then 366 else 365)"

definition DayFromYear :: "int \<Rightarrow> int" where
  "DayFromYear y =
     365 * (y - 1970) + (y - 1969) div 4 - (y - 1901) div 100 + (y - 1601) div 400"

text \<open>
  ECMAScript's YearFromTime is the largest year whose first day is not after the given
  day. It is computed here from an estimate that is off by at most one year.
\<close>

definition YearFromDay :: "int \<Rightarrow> int" where
  "YearFromDay d =
     (let e = 1970 + (400 * d) div 146097 in
      if d < DayFromYear e then e - 1
      else if DayFromYear (e + 1) \<le> d then e + 1
      else e)"

text \<open>The number of days of a year that lie before its month \<open>m\<close> (0 = January).\<close>

definition MonthStart :: "bool \<Rightarrow> int \<Rightarrow> int" where
  "MonthStart leap m =
     (let l = (if leap then 1 else 0) in
      if m = 0 then 0 else if m = 1 then 31 else if m = 2 then 59 + l
      else if m = 3 then 90 + l else if m = 4 then 120 + l else if m = 5 then 151 + l
      else if m = 6 then 181 + l else if m = 7 then 212 + l else if m = 8 then 243 + l
      else if m = 9 then 273 + l else if m = 10 then 304 + l else if m = 11 then 334 + l
      else 365 + l)"

definition DayWithinYear :: "int \<Rightarrow> int" where
  "DayWithinYear d = d - DayFromYear (YearFromDay d)"

definition MonthFromDay :: "int \<Rightarrow> int" where
  "MonthFromDay d =
     (let leap = InLeapYear (YearFromDay d); w = DayWithinYear d in
      if w < MonthStart leap 1 then 0 else if w < MonthStart leap 2 then 1
      else if w < MonthStart leap 3 then 2 else if w < MonthStart leap 4 then 3
      else if w < MonthStart leap 5 then 4 else if w < MonthStart leap 6 then 5
      else if w < MonthStart leap 7 then 6 else if w < MonthStart leap 8 then 7
      else if w < MonthStart leap 9 then 8 else if w < MonthStart leap 10 then 9
      else if w < MonthStart leap 11 then 10 else 11)"

definition DateFromDay :: "int \<Rightarrow> int" where
  "DateFromDay d =
     DayWithinYear d - MonthStart (InLeapYear (YearFromDay d)) (MonthFromDay d) + 1"

text \<open>
  MakeDay normalises a month index outside 0..11 into the neighbouring years and counts
  the day of the month from the first of that month, so that day 0 is the day before the
  first.
\<close>

definition MakeDay :: "int \<Rightarrow> int \<Rightarrow> int \<Rightarrow> int" where
  "MakeDay year month dt =
     (let ym = year + month div 12; mn = month mod 12 in
      DayFromYear ym + MonthStart (InLeapYear ym) mn + dt - 1)"

definition MakeDate :: "int \<Rightarrow> int \<Rightarrow> int" where
  "MakeDate day time = day * msPerDay + time"

datatype jsDate = Date int | InvalidDate

definition TimeClip :: "int \<Rightarrow> jsDate" where
  "TimeClip t = (if \<bar>t\<bar> > 8640000000000000 then InvalidDate else Date t)"

definition LocalTime :: "int \<Rightarrow> int \<Rightarrow> int" where
  "LocalTime tza t = t + tza"

definition UTC :: "int \<Rightarrow> int \<Rightarrow> int" where
  "UTC tza t = t - tza"

text \<open>\<^verbatim>\<open>new Date(year, monthIndex, day)\<close>: local midnight of that day; a year of 0..99 means 1900..1999.\<close>

definition newDate :: "int \<Rightarrow> int \<Rightarrow> int \<Rightarrow> int \<Rightarrow> jsDate" where
  "newDate tza year month dt =
     (let yr = (if 0 \<le> year \<and> year \<le> 99 then 1900 + year else year) in
      TimeClip (UTC tza (MakeDate (MakeDay yr month dt) 0)))"

definition getFullYear :: "int \<Rightarrow> int \<Rightarrow> int" where
  "getFullYear tza t = YearFromDay (Day (LocalTime tza t))"

definition getMonth :: "int \<Rightarrow> int \<Rightarrow> int" where
  "getMonth tza t = MonthFromDay (Day (LocalTime tza t))"

definition getDate :: "int \<Rightarrow> int \<Rightarrow> int" where
  "getDate tza t = DateFromDay (Day (LocalTime tza t))"

text \<open>The calendar: the number of days of month \<open>m\<close> (1 = January) of year \<open>y\<close>.\<close>

definition calendarDaysInMonth :: "int \<Rightarrow> int \<Rightarrow> int" where
  "calendarDaysInMonth y m =
     (if m = 2 then (if InLeapYear y then 29 else 28)
      else if m = 4 \<or> m = 6 \<or> m = 9 \<or> m = 11 then 30 else 31)"

subsection \<open>The text of a calendar day\<close>

definition digit :: "int \<Rightarrow> char" where
  "digit n = (''0123456789'' ! nat (n mod 10))"

definition pad2 :: "int \<Rightarrow> string" where
  "pad2 n = [digit (n div 10), digit n]"

definition pad4 :: "int \<Rightarrow> string" where
  "pad4 n = [digit (n div 1000), digit (n div 100), digit (n div 10), digit n]"

definition pad6 :: "int \<Rightarrow> string" where
  "pad6 n = [digit (n div 100000), digit (n div 10000)] @ pad4 n"

definition isoYear :: "int \<Rightarrow> string" where
  "isoYear y = (if 0 \<le> y \<and> y \<le> 9999 then pad4 y
                else (if y < 0 then ''-'' else ''+'') @ pad6 \<bar>y\<bar>)"

text \<open>The text \<open>YYYY-MM-DD\<close> of year \<open>y\<close>, month \<open>m\<close> (1 = January) and day \<open>d\<close>.\<close>

definition isoDate :: "int \<Rightarrow> int \<Rightarrow> int \<Rightarrow> string" where
  "isoDate y m d = isoYear y @ ''-'' @ pad2 m @ ''-'' @ pad2 d"

datatype error = RangeError | DbError

text \<open>\<^verbatim>\<open>d.toISOString().split('T')[0]\<close>: the UTC calendar day; an invalid Date throws RangeError.\<close>

definition isoDateOfTime :: "int \<Rightarrow> string" where
  "isoDateOfTime t =
     isoDate (YearFromDay (Day t)) (MonthFromDay (Day t) + 1) (DateFromDay (Day t))"

definition toISODate :: "jsDate \<Rightarrow> error + string" where
  "toISODate d = (case d of InvalidDate \<Rightarrow> Inl RangeError | Date t \<Rightarrow> Inr (isoDateOfTime t))"

section \<open>JavaScript numbers\<close>

text \<open>
  The server adds and divides weights as JavaScript numbers, that is, in IEEE 754 double
  precision with rounding to nearest, ties to even. A finite number is modelled as the
  rational it denotes, and every operation rounds its exact result to the nearest double
  (with the fixed exponent of the subnormal range below \<open>2 powi - 1022\<close>). The two zeros are
  one value. Infinity and NaN are not modelled: a weight is a \<^verbatim>\<open>decimal(10, 2)\<close>, below
  \<open>10 ^ 8\<close>, and the ids of a table are 32-bit, so that no sum of weights comes near the
  largest double; the only divisor is a day of the month, which is never zero.
\<close>

text \<open>For \<open>a > 0\<close>, the integer \<open>k\<close> with \<open>2 powi k \<le> a < 2 powi (k + 1)\<close>.\<close>

definition floorLog2 :: "rat \<Rightarrow> int" where
  "floorLog2 a =
     (let (p, q) = quotient_of a; e = bitlen p - bitlen q
      in if 2 powi e \<le> a then e else e - 1)"

definition roundHalfEven :: "rat \<Rightarrow> int" where
  "roundHalfEven r =
     (let f = \<lfloor>r\<rfloor>; d = r - of_int f
      in if d < 1 / 2 then f else if 1 / 2 < d then f + 1 else if even f then f else f + 1)"

text \<open>The double nearest to a rational: 53 significant bits, ties to even.\<close>

definition roundDouble :: "rat \<Rightarrow> rat" where
  "roundDouble x =
     (if x = 0 then 0
      else
        let a = \<bar>x\<bar>;
            q = max (floorLog2 a) (- 1022) - 52;
            m = roundHalfEven (a / 2 powi q)
        in sgn x * of_int m * 2 powi q)"

text \<open>\<^verbatim>\<open>a + b\<close> and \<^verbatim>\<open>a / b\<close> on numbers.\<close>

definition fadd :: "rat \<Rightarrow> rat \<Rightarrow> rat" where
  "fadd a b = roundDouble (a + b)"

definition fdiv :: "rat \<Rightarrow> rat \<Rightarrow> rat" where
  "fdiv a b = roundDouble (a / b)"

text \<open>\<^verbatim>\<open>parseFloat\<close> of the text of a decimal: the double nearest to the decimal.\<close>

definition parseFloat :: "rat \<Rightarrow> rat" where
  "parseFloat w = roundDouble w"

section \<open>The schema\<close>

text \<open>
  The two tables of \<^verbatim>\<open>shared/schema.ts\<close>. A nullable column is an option; a timestamp is a
  time value; a \<^verbatim>\<open>date\<close> column is read by the server as the text \<open>YYYY-MM-DD\<close>, and that
  text is what the model stores. The SQL comparisons and orderings on that column are
  taken as the lexicographic order of the text, which is the order of the days when the
  stored dates are of the years 0001 to 9999 (\<open>storedDatesFourDigit\<close> below; the statements
  about the order of dates assume it). A \<^verbatim>\<open>decimal(10, 2)\<close> weight is stored as its exact
  value; the server reads it with \<^verbatim>\<open>parseFloat\<close>.
  The table \<^verbatim>\<open>weight_records\<close> has no work-type column.
\<close>

datatype workType = filetagem | espinho

record user =
  u_id :: int
  u_cpf :: string
  u_password :: string
  u_firstName :: string
  u_lastName :: string
  u_isAdmin :: "bool option"
  u_workType :: "workType option"
  u_isActive :: "bool option"
  u_createdAt :: "int option"
  u_updatedAt :: "int option"

record weightRecord =
  w_id :: int
  w_userId :: int
  w_weight :: rat
  w_date :: string
  w_notes :: "string option"
  w_createdAt :: "int option"
  w_createdBy :: int

text \<open>The database: the rows of the two tables and the next value of each \<^verbatim>\<open>serial\<close> id.\<close>

record database =
  users :: "user list"
  weightRecords :: "weightRecord list"
  usersSeq :: int
  weightRecordsSeq :: int

text \<open>
  The object that \<^verbatim>\<open>updateUser\<close> receives. Its declared type is
  \<^verbatim>\<open>updateUserSchema = insertUserSchema.partial()\<close>: every column but \<^verbatim>\<open>id\<close>,
  \<^verbatim>\<open>createdAt\<close> and \<^verbatim>\<open>updatedAt\<close>, each optional. The handler passes the body of the
  request as it comes, so the object may also carry the key \<^verbatim>\<open>id\<close>, which is a column and
  is written like the others. (A key \<^verbatim>\<open>updatedAt\<close> is overwritten by the time of the
  update; a key \<^verbatim>\<open>createdAt\<close> is not modelled.) \<open>None\<close> is an absent key; for a nullable
  column \<open>Some None\<close> writes null.
\<close>

record UpdateUser =
  upd_id :: "int option"
  upd_cpf :: "string option"
  upd_password :: "string option"
  upd_firstName :: "string option"
  upd_lastName :: "string option"
  upd_isAdmin :: "bool option option"
  upd_workType :: "workType option option"
  upd_isActive :: "bool option option"

text \<open>
  \<^verbatim>\<open>insertWeightRecordSchema\<close>: the columns of \<^verbatim>\<open>weight_records\<close> without \<^verbatim>\<open>id\<close> and
  \<^verbatim>\<open>createdAt\<close>. The handler always supplies \<^verbatim>\<open>userId\<close> and \<^verbatim>\<open>createdBy\<close>.
\<close>

record InsertWeightRecord =
  i_userId :: int
  i_weight :: rat
  i_date :: string
  i_notes :: "string option"
  i_createdBy :: int

section \<open>The storage layer (DatabaseStorage)\<close>

definition getUser :: "database \<Rightarrow> int \<Rightarrow> user option" where
  "getUser db i = find (\<lambda>u. u_id u = i) (users db)"

text \<open>
  What the column \<^verbatim>\<open>varchar(11)\<close> stores for a value: a longer value is cut to 11
  characters when all the excess is spaces, and is rejected otherwise.
\<close>

definition cpfStored :: "string \<Rightarrow> string option" where
  "cpfStored c =
     (if length c \<le> 11 \<or> list_all (\<lambda>ch. ch = CHR '' '') (drop 11 c) then Some (take 11 c)
      else None)"

definition applyUpdate :: "UpdateUser \<Rightarrow> int \<Rightarrow> user \<Rightarrow> user" where
  "applyUpdate updates now u =
     u\<lparr> u_id := (case upd_id updates of None \<Rightarrow> u_id u | Some v \<Rightarrow> v),
        u_cpf := (case upd_cpf updates of None \<Rightarrow> u_cpf u | Some v \<Rightarrow> take 11 v),
        u_password := (case upd_password updates of None \<Rightarrow> u_password u | Some v \<Rightarrow> v),
        u_firstName := (case upd_firstName updates of None \<Rightarrow> u_firstName u | Some v \<Rightarrow> v),
        u_lastName := (case upd_lastName updates of None \<Rightarrow> u_lastName u | Some v \<Rightarrow> v),
        u_isAdmin := (case upd_isAdmin updates of None \<Rightarrow> u_isAdmin u | Some v \<Rightarrow> v),
        u_workType := (case upd_workType updates of None \<Rightarrow> u_workType u | Some v \<Rightarrow> v),
        u_isActive := (case upd_isActive updates of None \<Rightarrow> u_isActive u | Some v \<Rightarrow> v),
        u_updatedAt := Some now \<rparr>"

text \<open>
  The database rejects the statement when the \<^verbatim>\<open>cpf\<close> does not fit the column, whether
  or not a row has the id. When a row has the id, it rejects a \<^verbatim>\<open>cpf\<close> that another row
  has (\<^verbatim>\<open>unique\<close>), a new id that another row has (primary key), and a new id while a
  weight record refers to the old one (foreign keys without cascade).
\<close>

definition updateRejected :: "database \<Rightarrow> int \<Rightarrow> UpdateUser \<Rightarrow> bool" where
  "updateRejected db i updates =
     ((case upd_cpf updates of None \<Rightarrow> False | Some c \<Rightarrow> cpfStored c = None) \<or>
      ((\<exists>u \<in> set (users db). u_id u = i) \<and>
       ((case upd_cpf updates of
           None \<Rightarrow> False
         | Some c \<Rightarrow> (\<exists>v \<in> set (users db). u_id v \<noteq> i \<and> u_cpf v = take 11 c)) \<or>
        (case upd_id updates of
           None \<Rightarrow> False
         | Some j \<Rightarrow>
             j \<noteq> i \<and>
             ((\<exists>v \<in> set (users db). u_id v = j) \<or>
              (\<exists>r \<in> set (weightRecords db). w_userId r = i \<or> w_createdBy r = i))))))"

text \<open>\<^verbatim>\<open>updateUser\<close> returns the first updated row, or nothing when no row has the id.\<close>

definition updateUser ::
    "database \<Rightarrow> int \<Rightarrow> UpdateUser \<Rightarrow> int \<Rightarrow> error + (database \<times> user option)" where
  "updateUser db i updates now =
     (if updateRejected db i updates then Inl DbError
      else
        let rows = map (\<lambda>u. if u_id u = i then applyUpdate updates now u else u) (users db);
            returned = map (applyUpdate updates now) (filter (\<lambda>u. u_id u = i) (users db))
        in Inr (db\<lparr>users := rows\<rparr>, case returned of [] \<Rightarrow> None | user # _ \<Rightarrow> Some user))"


definition validateUser :: "database \<Rightarrow> string \<Rightarrow> string \<Rightarrow> user option" where
  "validateUser db cpf password =
     find (\<lambda>u. u_cpf u = cpf \<and> u_password u = password \<and> u_isActive u = Some True) (users db)"

subsection \<open>Inserting a weight record\<close>

text \<open>
  The database takes the text of a date in the form \<open>YYYY-MM-DD\<close> of a day of the calendar
  of the years 0001 to 9999 (other input forms are not modelled and count as rejected),
  rounds the weight to two decimals, half away from zero, rejects a weight of more than
  eight integer digits, and checks both foreign keys. The text of the date is read before
  the statement runs; the id is taken from the sequence when it runs, so that a rejected
  weight or foreign key uses up an id.
\<close>

definition digitVal :: "char \<Rightarrow> int option" where
  "digitVal c = (let n = int (of_char c) in if 48 \<le> n \<and> n \<le> 57 then Some (n - 48) else None)"

fun number :: "string \<Rightarrow> int option" where
  "number [] = None"
| "number [c] = digitVal c"
| "number cs =
     (case (number (butlast cs), digitVal (last cs)) of
        (Some n, Some k) \<Rightarrow> Some (10 * n + k)
      | _ \<Rightarrow> None)"

definition dateAccepted :: "string \<Rightarrow> bool" where
  "dateAccepted s =
     (length s = 10 \<and> s ! 4 = CHR ''-'' \<and> s ! 7 = CHR ''-'' \<and>
      (case (number (take 4 s), number (take 2 (drop 5 s)), number (drop 8 s)) of
         (Some y, Some m, Some d) \<Rightarrow>
           1 \<le> y \<and> 1 \<le> m \<and> m \<le> 12 \<and> 1 \<le> d \<and> d \<le> calendarDaysInMonth y m
       | _ \<Rightarrow> False))"

definition roundScale2 :: "rat \<Rightarrow> rat" where
  "roundScale2 w =
     (if 0 \<le> w then of_int \<lfloor>w * 100 + 1 / 2\<rfloor> / 100
      else - (of_int \<lfloor>- w * 100 + 1 / 2\<rfloor> / 100))"

definition createWeightRecord ::
    "database \<Rightarrow> InsertWeightRecord \<Rightarrow> int \<Rightarrow> database \<times> (error + weightRecord)" where
  "createWeightRecord db record now =
     (if \<not> dateAccepted (i_date record) then (db, Inl DbError)
      else
        let taken = db\<lparr> weightRecordsSeq := weightRecordsSeq db + 1 \<rparr> in
        if getUser db (i_userId record) = None \<or> getUser db (i_createdBy record) = None
           \<or> 100000000 \<le> \<bar>roundScale2 (i_weight record)\<bar>
        then (taken, Inl DbError)
        else
          let weightRecord =
                \<lparr> w_id = weightRecordsSeq db,
                  w_userId = i_userId record,
                  w_weight = roundScale2 (i_weight record),
                  w_date = i_date record,
                  w_notes = i_notes record,
                  w_createdAt = Some now,
                  w_createdBy = i_createdBy record \<rparr>
          in (taken\<lparr> weightRecords := weightRecords db @ [weightRecord] \<rparr>, Inr weightRecord))"

subsection \<open>Listing weight records\<close>

text \<open>
  \<^verbatim>\<open>ORDER BY ... DESC\<close>: PostgreSQL puts nulls first in a descending order, that is, it
  takes null as the largest value. The order of rows that agree on the ordering columns is
  left open by SQL; the model takes the reverse of a stable ascending sort.
\<close>

definition nullsLargest :: "int option \<Rightarrow> bool \<times> int" where
  "nullsLargest c = (case c of None \<Rightarrow> (True, 0) | Some t \<Rightarrow> (False, t))"

definition orderByDateCreatedDesc :: "weightRecord list \<Rightarrow> weightRecord list" where
  "orderByDateCreatedDesc rows =
     rev (sort_key (\<lambda>r. (w_date r, nullsLargest (w_createdAt r))) rows)"

definition orderByCreatedDesc :: "weightRecord list \<Rightarrow> weightRecord list" where
  "orderByCreatedDesc rows = rev (sort_key (\<lambda>r. nullsLargest (w_createdAt r)) rows)"

text \<open>
  An absent bound is \<open>None\<close>. A Date object is truthy even when it is invalid, so the
  range is applied as soon as both bounds are present, and an invalid one then throws.
  The text of a bound goes to the database as a date; of the texts that \<^verbatim>\<open>toISOString\<close>
  makes, the database takes those of the years 0001 to 9999 and rejects the others
  (year 0000 and the signed six-digit years), which \<open>dateAccepted\<close> decides.
\<close>

definition getUserWeightRecords ::
    "database \<Rightarrow> int \<Rightarrow> jsDate option \<Rightarrow> jsDate option \<Rightarrow> error + weightRecord list" where
  "getUserWeightRecords db userId startDate endDate =
     (case (startDate, endDate) of
        (Some s, Some e) \<Rightarrow>
          (case toISODate s of
             Inl x \<Rightarrow> Inl x
           | Inr lo \<Rightarrow>
               (case toISODate e of
                  Inl x \<Rightarrow> Inl x
                | Inr hi \<Rightarrow>
                    if dateAccepted lo \<and> dateAccepted hi
                    then
                      Inr (orderByDateCreatedDesc
                        (filter (\<lambda>r. w_userId r = userId \<and> lo \<le> w_date r \<and> w_date r \<le> hi)
                           (weightRecords db)))
                    else Inl DbError))
      | _ \<Rightarrow>
          Inr (orderByDateCreatedDesc (filter (\<lambda>r. w_userId r = userId) (weightRecords db))))"

definition getAllWeightRecords ::
    "database \<Rightarrow> jsDate option \<Rightarrow> jsDate option \<Rightarrow> error + weightRecord list" where
  "getAllWeightRecords db startDate endDate =
     (case (startDate, endDate) of
        (Some s, Some e) \<Rightarrow>
          (case toISODate s of
             Inl x \<Rightarrow> Inl x
           | Inr lo \<Rightarrow>
               (case toISODate e of
                  Inl x \<Rightarrow> Inl x
                | Inr hi \<Rightarrow>
                    if dateAccepted lo \<and> dateAccepted hi
                    then
                      Inr (orderByDateCreatedDesc
                        (filter (\<lambda>r. lo \<le> w_date r \<and> w_date r \<le> hi) (weightRecords db)))
                    else Inl DbError))
      | _ \<Rightarrow> Inr (orderByDateCreatedDesc (weightRecords db)))"

section \<open>The aggregation queries\<close>

record DailyStats =
  ds_totalWeight :: rat
  ds_recordCount :: nat
  ds_records :: "weightRecord list"

record DayEntry =
  de_date :: string
  de_weight :: rat
  de_recordCount :: nat

record MonthlyStats =
  ms_totalWeight :: rat
  ms_recordCount :: nat
  ms_dailyStats :: "DayEntry list"

record DashboardStats =
  da_totalToday :: rat
  da_activeUsers :: nat
  da_avgDaily :: rat
  da_totalMonth :: rat

record SummaryStats =
  su_totalToday :: rat
  su_totalMonth :: rat
  su_avgDaily :: rat

text \<open>
  \<^verbatim>\<open>records.reduce((sum, record) => sum + parseFloat(record.weight), 0)\<close>: the weights
  are added as doubles, from the first record of the list to the last.
\<close>

definition sumWeights :: "weightRecord list \<Rightarrow> rat" where
  "sumWeights records = foldl (\<lambda>sum record. fadd sum (parseFloat (w_weight record))) 0 records"

definition getUserDailyStats :: "database \<Rightarrow> int \<Rightarrow> jsDate \<Rightarrow> error + DailyStats" where
  "getUserDailyStats db userId date =
     (case toISODate date of
        Inl x \<Rightarrow> Inl x
      | Inr dateStr \<Rightarrow>
          if \<not> dateAccepted dateStr then Inl DbError
          else
            let records = orderByCreatedDesc
                  (filter (\<lambda>r. w_userId r = userId \<and> w_date r = dateStr) (weightRecords db))
            in Inr \<lparr> ds_totalWeight = sumWeights records,
                     ds_recordCount = length records,
                     ds_records = records \<rparr>)"

text \<open>
  The grouping object of \<^verbatim>\<open>getUserMonthlyStats\<close>, keyed by the date text, is an association
  list in insertion order, which is the order in which \<^verbatim>\<open>Object.values\<close> lists the entries
  of such keys. The final \<^verbatim>\<open>sort\<close> with \<^verbatim>\<open>localeCompare\<close> is stable, and on date texts
  of the form \<open>YYYY-MM-DD\<close> \<^verbatim>\<open>localeCompare\<close> is their lexicographic order. One step of
  the \<^verbatim>\<open>reduce\<close>:
\<close>

definition groupStep :: "(string \<times> DayEntry) list \<Rightarrow> weightRecord \<Rightarrow> (string \<times> DayEntry) list" where
  "groupStep acc record =
     (let date = w_date record;
          entry = (case map_of acc date of
                     None \<Rightarrow> \<lparr> de_date = date, de_weight = 0, de_recordCount = 0 \<rparr>
                   | Some e \<Rightarrow> e)
      in AList.update date
           (entry\<lparr> de_weight := fadd (de_weight entry) (parseFloat (w_weight record)),
                   de_recordCount := de_recordCount entry + 1 \<rparr>) acc)"

definition getUserMonthlyStats ::
    "int \<Rightarrow> database \<Rightarrow> int \<Rightarrow> int \<Rightarrow> int \<Rightarrow> error + MonthlyStats" where
  "getUserMonthlyStats tza db userId year month =
     (let startDate = newDate tza year (month - 1) 1;
          endDate = newDate tza year month 0
      in case getUserWeightRecords db userId (Some startDate) (Some endDate) of
           Inl x \<Rightarrow> Inl x
         | Inr records \<Rightarrow>
             let dailyStats = foldl groupStep [] records
             in Inr \<lparr> ms_totalWeight = sumWeights records,
                      ms_recordCount = length records,
                      ms_dailyStats = sort_key de_date (map snd dailyStats) \<rparr>)"

text \<open>
  The dashboard and the summary read the clock: \<open>now\<close> is the time value of
  \<^verbatim>\<open>new Date()\<close>. The month bounds come from the local year and month of \<open>now\<close>, the
  text of today from its UTC day. The query for the records of today has no
  \<^verbatim>\<open>ORDER BY\<close>; the model takes them in the order of the table.
\<close>

definition getDashboardStats :: "int \<Rightarrow> int \<Rightarrow> database \<Rightarrow> error + DashboardStats" where
  "getDashboardStats tza now db =
     (let todayStr = isoDateOfTime now;
          monthStart = newDate tza (getFullYear tza now) (getMonth tza now) 1;
          monthEnd = newDate tza (getFullYear tza now) (getMonth tza now + 1) 0;
          todayRecords = filter (\<lambda>r. w_date r = todayStr) (weightRecords db);
          totalToday = sumWeights todayRecords;
          activeUsers = length (filter (\<lambda>u. u_isActive u = Some True) (users db))
      in if \<not> dateAccepted todayStr then Inl DbError
         else
           case getAllWeightRecords db (Some monthStart) (Some monthEnd) of
             Inl x \<Rightarrow> Inl x
           | Inr monthRecords \<Rightarrow>
               (case monthEnd of
                  InvalidDate \<Rightarrow> Inl RangeError
                | Date t \<Rightarrow>
                    let totalMonth = sumWeights monthRecords;
                        daysInMonth = getDate tza t;
                        avgDaily = fdiv totalMonth (of_int daysInMonth)
                    in Inr \<lparr> da_totalToday = totalToday,
                             da_activeUsers = activeUsers,
                             da_avgDaily = avgDaily,
                             da_totalMonth = totalMonth \<rparr>))"

definition getUserSummaryStats :: "int \<Rightarrow> int \<Rightarrow> database \<Rightarrow> int \<Rightarrow> error + SummaryStats" where
  "getUserSummaryStats tza now db userId =
     (let todayStr = isoDateOfTime now;
          monthStart = newDate tza (getFullYear tza now) (getMonth tza now) 1;
          monthEnd = newDate tza (getFullYear tza now) (getMonth tza now + 1) 0;
          todayRecords =
            filter (\<lambda>r. w_userId r = userId \<and> w_date r = todayStr) (weightRecords db);
          totalToday = sumWeights todayRecords
      in if \<not> dateAccepted todayStr then Inl DbError
         else
           case getUserWeightRecords db userId (Some monthStart) (Some monthEnd) of
             Inl x \<Rightarrow> Inl x
           | Inr monthRecords \<Rightarrow>
               (case monthEnd of
                  InvalidDate \<Rightarrow> Inl RangeError
                | Date t \<Rightarrow>
                    let totalMonth = sumWeights monthRecords;
                        daysInMonth = getDate tza t;
                        avgDaily = fdiv totalMonth (of_int daysInMonth)
                    in Inr \<lparr> su_totalToday = totalToday,
                             su_totalMonth = totalMonth,
                             su_avgDaily = avgDaily \<rparr>))"

section \<open>The routes\<close>

text \<open>
  A handler answers with a JSON body or with a status and a message. The session holds
  the id of the logged-in user or nothing. A path parameter read with \<^verbatim>\<open>parseInt\<close> is
  given to the model as the integer read, \<open>None\<close> when \<^verbatim>\<open>parseInt\<close> gives \<^verbatim>\<open>NaN\<close>; a
  date read with \<^verbatim>\<open>new Date(text)\<close> is given as the Date object it makes.
  A \<^verbatim>\<open>NaN\<close> id that reaches a query is rejected by the database, and every error inside a
  handler ends in its \<^verbatim>\<open>catch\<close> with status 500.
\<close>

datatype 'a response = Json 'a | Status nat string

definition isAuthenticated :: "int option \<Rightarrow> bool" where
  "isAuthenticated session = (case session of None \<Rightarrow> False | Some userId \<Rightarrow> userId \<noteq> 0)"

definition isAdmin :: "database \<Rightarrow> int option \<Rightarrow> bool" where
  "isAdmin db session =
     (case session of
        None \<Rightarrow> False
      | Some userId \<Rightarrow>
          (case getUser db userId of None \<Rightarrow> False | Some user \<Rightarrow> u_isAdmin user = Some True))"

text \<open>
  The test every statistics handler makes:
  \<^verbatim>\<open>parseInt(userId) !== currentUserId && !currentUser?.isAdmin\<close>.
\<close>

definition accessDenied :: "database \<Rightarrow> int \<Rightarrow> int option \<Rightarrow> bool" where
  "accessDenied db currentUserId userId =
     (let currentUser = getUser db currentUserId
      in userId \<noteq> Some currentUserId \<and>
         \<not> (case currentUser of None \<Rightarrow> False | Some u \<Rightarrow> u_isAdmin u = Some True))"

definition respond :: "string \<Rightarrow> error + 'a \<Rightarrow> 'a response" where
  "respond message result = (case result of Inl x \<Rightarrow> Status 500 message | Inr v \<Rightarrow> Json v)"

definition withUserId :: "int option \<Rightarrow> (int \<Rightarrow> error + 'a) \<Rightarrow> error + 'a" where
  "withUserId userId query = (case userId of None \<Rightarrow> Inl DbError | Some uid \<Rightarrow> query uid)"

definition userWeightRecordsRoute ::
    "database \<Rightarrow> int option \<Rightarrow> int option \<Rightarrow> jsDate option \<Rightarrow> jsDate option
      \<Rightarrow> weightRecord list response" where
  "userWeightRecordsRoute db session userId start end =
     (case session of
        None \<Rightarrow> Status 401 ''Unauthorized''
      | Some currentUserId \<Rightarrow>
          if \<not> isAuthenticated session then Status 401 ''Unauthorized''
          else if accessDenied db currentUserId userId then Status 403 ''Access denied''
          else respond ''Failed to fetch weight records''
                 (withUserId userId (\<lambda>uid. getUserWeightRecords db uid start end)))"

definition dailyStatsRoute ::
    "database \<Rightarrow> int option \<Rightarrow> int option \<Rightarrow> jsDate \<Rightarrow> DailyStats response" where
  "dailyStatsRoute db session userId date =
     (case session of
        None \<Rightarrow> Status 401 ''Unauthorized''
      | Some currentUserId \<Rightarrow>
          if \<not> isAuthenticated session then Status 401 ''Unauthorized''
          else if accessDenied db currentUserId userId then Status 403 ''Access denied''
          else respond ''Failed to fetch daily stats''
                 (withUserId userId (\<lambda>uid. getUserDailyStats db uid date)))"

text \<open>A year or month that \<^verbatim>\<open>parseInt\<close> reads as \<^verbatim>\<open>NaN\<close> makes both bounds invalid Dates.\<close>

definition monthlyStatsRoute ::
    "int \<Rightarrow> database \<Rightarrow> int option \<Rightarrow> int option \<Rightarrow> int option \<Rightarrow> int option
      \<Rightarrow> MonthlyStats response" where
  "monthlyStatsRoute tza db session userId year month =
     (case session of
        None \<Rightarrow> Status 401 ''Unauthorized''
      | Some currentUserId \<Rightarrow>
          if \<not> isAuthenticated session then Status 401 ''Unauthorized''
          else if accessDenied db currentUserId userId then Status 403 ''Access denied''
          else respond ''Failed to fetch monthly stats''
                 (case (year, month) of
                    (Some y, Some m) \<Rightarrow>
                      withUserId userId (\<lambda>uid. getUserMonthlyStats tza db uid y m)
                  | _ \<Rightarrow> Inl RangeError))"

definition userSummaryRoute ::
    "int \<Rightarrow> int \<Rightarrow> database \<Rightarrow> int option \<Rightarrow> int option \<Rightarrow> SummaryStats response" where
  "userSummaryRoute tza now db session userId =
     (case session of
        None \<Rightarrow> Status 401 ''Unauthorized''
      | Some currentUserId \<Rightarrow>
          if \<not> isAuthenticated session then Status 401 ''Unauthorized''
          else if accessDenied db currentUserId userId then Status 403 ''Access denied''
          else respond ''Failed to fetch user summary stats''
                 (withUserId userId (\<lambda>uid. getUserSummaryStats tza now db uid)))"

subsection \<open>Creating a weight record\<close>

text \<open>
  The body of the request after JSON decoding, with \<^verbatim>\<open>userId\<close> and \<^verbatim>\<open>weight\<close> as the
  numbers that \<^verbatim>\<open>parseInt\<close> and \<^verbatim>\<open>parseFloat\<close> read from them; \<open>None\<close> is an absent key.
\<close>

record WeightRecordBody =
  b_userId :: "int option"
  b_weight :: "rat option"
  b_date :: "string option"
  b_notes :: "string option"

text \<open>The object the handler builds and hands to \<^verbatim>\<open>insertWeightRecordSchema.parse\<close>.\<close>

record WeightRecordInput =
  in_userId :: int
  in_weight :: rat
  in_date :: string
  in_notes :: "string option"
  in_workType :: "workType option"
  in_createdBy :: int

text \<open>
  The parse keeps the keys of the schema, that is, the columns of \<^verbatim>\<open>weight_records\<close>
  without \<^verbatim>\<open>id\<close> and \<^verbatim>\<open>createdAt\<close>, drops every other key, and fails unless the weight
  is positive.
\<close>

definition insertWeightRecordSchema_parse :: "WeightRecordInput \<Rightarrow> InsertWeightRecord option" where
  "insertWeightRecordSchema_parse x =
     (if 0 < in_weight x
      then Some \<lparr> i_userId = in_userId x, i_weight = in_weight x, i_date = in_date x,
                  i_notes = in_notes x, i_createdBy = in_createdBy x \<rparr>
      else None)"

definition createWeightRecordRoute ::
    "database \<Rightarrow> int option \<Rightarrow> WeightRecordBody \<Rightarrow> int \<Rightarrow> database \<times> weightRecord response" where
  "createWeightRecordRoute db session body now =
     (case session of
        None \<Rightarrow> (db, Status 401 ''Unauthorized'')
      | Some currentUserId \<Rightarrow>
          if \<not> isAuthenticated session then (db, Status 401 ''Unauthorized'')
          else if \<not> isAdmin db session then (db, Status 403 ''Admin access required'')
          else
            (case (b_userId body, b_weight body, b_date body) of
               (Some userId, Some weight, Some date) \<Rightarrow>
                 if userId = 0 \<or> weight = 0 \<or> date = [] then (db, Status 400 ''Invalid data'')
                 else
                   (case getUser db userId of
                      None \<Rightarrow> (db, Status 400 ''Invalid data'')
                    | Some user \<Rightarrow>
                        (case insertWeightRecordSchema_parse
                                \<lparr> in_userId = userId, in_weight = weight, in_date = date,
                                  in_notes = b_notes body, in_workType = u_workType user,
                                  in_createdBy = currentUserId \<rparr> of
                           None \<Rightarrow> (db, Status 400 ''Invalid data'')
                         | Some data \<Rightarrow>
                             (case createWeightRecord db data now of
                                (db', Inl x) \<Rightarrow> (db', Status 500 ''Failed to create weight record'')
                              | (db', Inr record) \<Rightarrow> (db', Json record))))
             | _ \<Rightarrow> (db, Status 400 ''Invalid data'')))"

section \<open>Notions used in the statements\<close>

text \<open>The caller may see the target's data: it is the caller's own, or the caller is an admin.\<close>

definition selfOrAdmin :: "user \<Rightarrow> int \<Rightarrow> bool" where
  "selfOrAdmin caller target = (u_id caller = target \<or> u_isAdmin caller = Some True)"



definition ofUserOnDate :: "int \<Rightarrow> string \<Rightarrow> weightRecord \<Rightarrow> bool" where
  "ofUserOnDate userId dateStr r = (w_userId r = userId \<and> w_date r = dateStr)"


text \<open>The UTC year of a time value (\<^verbatim>\<open>getUTCFullYear\<close>).\<close>

definition getUTCFullYear :: "int \<Rightarrow> int" where
  "getUTCFullYear t = YearFromDay (Day t)"

text \<open>
  Every stored date is a day of the years 0001 to 9999, in the form \<open>YYYY-MM-DD\<close>. For
  such dates the order of the texts is the order of the days.
\<close>

definition storedDatesFourDigit :: "database \<Rightarrow> bool" where
  "storedDatesFourDigit db = list_all (\<lambda>r. dateAccepted (w_date r)) (weightRecords db)"

section \<open>Sample data\<close>

definition sampleAdmin :: user where
  "sampleAdmin =
     \<lparr> u_id = 1, u_cpf = ''11111111111'', u_password = ''admin-pw'', u_firstName = ''Ana'',
       u_lastName = ''Souza'', u_isAdmin = Some True, u_workType = None,
       u_isActive = Some True, u_createdAt = Some 1000, u_updatedAt = Some 1000 \<rparr>"

definition sampleWorker :: user where
  "sampleWorker =
     \<lparr> u_id = 2, u_cpf = ''22222222222'', u_password = ''worker-pw'', u_firstName = ''Bia'',
       u_lastName = ''Lima'', u_isAdmin = Some False, u_workType = Some filetagem,
       u_isActive = Some True, u_createdAt = Some 2000, u_updatedAt = Some 2000 \<rparr>"

definition sampleInactive :: user where
  "sampleInactive =
     \<lparr> u_id = 3, u_cpf = ''33333333333'', u_password = ''old-pw'', u_firstName = ''Caio'',
       u_lastName = ''Reis'', u_isAdmin = None, u_workType = Some espinho,
       u_isActive = Some False, u_createdAt = Some 3000, u_updatedAt = Some 3000 \<rparr>"

definition sampleRecord :: "int \<Rightarrow> int \<Rightarrow> rat \<Rightarrow> string \<Rightarrow> int \<Rightarrow> weightRecord" where
  "sampleRecord i userId weight date created =
     \<lparr> w_id = i, w_userId = userId, w_weight = weight, w_date = date, w_notes = None,
       w_createdAt = Some created, w_createdBy = 1 \<rparr>"

definition sampleRecords :: "weightRecord list" where
  "sampleRecords =
     [ sampleRecord 1 2 10 ''2024-01-31'' 100,
       sampleRecord 2 2 (21 / 4) ''2024-02-29'' 200,
       sampleRecord 3 3 4 ''2024-02-29'' 300,
       sampleRecord 4 2 (25 / 2) ''2024-03-15'' 400,
       sampleRecord 5 2 (15 / 2) ''2024-03-15'' 500,
       sampleRecord 6 2 3 ''2024-03-01'' 600 ]"

definition sampleDb :: database where
  "sampleDb =
     \<lparr> users = [sampleAdmin, sampleWorker, sampleInactive], weightRecords = sampleRecords,
       usersSeq = 4, weightRecordsSeq = 7 \<rparr>"

text \<open>The same rows of weights when the row of user 3 has been removed from \<^verbatim>\<open>users\<close>.\<close>

definition sampleDbWithout3 :: database where
  "sampleDbWithout3 = sampleDb\<lparr> users := [sampleAdmin, sampleWorker] \<rparr>"

text \<open>2024-03-15T12:00:00Z, and the local offsets of UTC-3 and UTC+1.\<close>

definition sampleNow :: int where
  "sampleNow = 1710504000000"

definition utcMinus3 :: int where
  "utcMinus3 = - 10800000"

definition utcPlus1 :: int where
  "utcPlus1 = 3600000"

definition sampleDbNoRecords :: database where
  "sampleDbNoRecords = sampleDb\<lparr> weightRecords := [], weightRecordsSeq := 1 \<rparr>"

definition sampleBody :: WeightRecordBody where
  "sampleBody =
     \<lparr> b_userId = Some 2, b_weight = Some (25 / 2), b_date = Some ''2024-03-15'', b_notes = None \<rparr>"

definition sampleCreated :: weightRecord where
  "sampleCreated =
     \<lparr> w_id = 1, w_userId = 2, w_weight = 25 / 2, w_date = ''2024-03-15'', w_notes = None,
       w_createdAt = Some sampleNow, w_createdBy = 1 \<rparr>"

text \<open>The same database with the work type of user 2 changed to \<open>espinho\<close>.\<close>

definition sampleDbEspinho :: database where
  "sampleDbEspinho =
     sampleDbNoRecords\<lparr> users := [sampleAdmin, sampleWorker\<lparr> u_workType := Some espinho \<rparr>,
                                  sampleInactive] \<rparr>"

definition sampleCpfUpdate :: UpdateUser where
  "sampleCpfUpdate =
     \<lparr> upd_id = None, upd_cpf = Some ''99999999999'', upd_password = None, upd_firstName = None,
       upd_lastName = None, upd_isAdmin = None, upd_workType = None, upd_isActive = None \<rparr>"



text \<open>An update that carries an id, and one whose \<^verbatim>\<open>cpf\<close> ends in a space too many.\<close>

definition sampleIdUpdate :: UpdateUser where
  "sampleIdUpdate =
     \<lparr> upd_id = Some 9, upd_cpf = None, upd_password = None, upd_firstName = None,
       upd_lastName = None, upd_isAdmin = None, upd_workType = None, upd_isActive = None \<rparr>"

definition sampleSpacedCpfUpdate :: UpdateUser where
  "sampleSpacedCpfUpdate =
     \<lparr> upd_id = None, upd_cpf = Some ''12345678901 '', upd_password = None, upd_firstName = None,
       upd_lastName = None, upd_isAdmin = None, upd_workType = None, upd_isActive = None \<rparr>"

text \<open>
  Records of user 2 whose weights are not doubles: 0.10 and 0.20 on 2024-03-01 and 0.30 on
  2024-03-02.
\<close>

definition roundingDb :: database where
  "roundingDb =
     sampleDb\<lparr> weightRecords :=
       [ sampleRecord 1 2 (1 / 10) ''2024-03-01'' 100,
         sampleRecord 2 2 (1 / 5) ''2024-03-01'' 200,
         sampleRecord 3 2 (3 / 10) ''2024-03-02'' 300 ],
       weightRecordsSeq := 4 \<rparr>"


section \<open>The access policy\<close>

lemma getUser_id: "getUser db i = Some u \<Longrightarrow> u_id u = i"
  by (auto simp: getUser_def find_Some_iff)

lemma getUser_mem: "getUser db i = Some u \<Longrightarrow> u \<in> set (users db)"
  by (auto simp: getUser_def find_Some_iff)

lemma respond_not_status: "respond message result = Status n text \<Longrightarrow> n = 500"
  by (auto simp: respond_def split: sum.splits)

lemma respond_not_403: "respond message result \<noteq> Status 403 text"
  using respond_not_status by fastforce

lemma accessDenied_resolved:
  assumes "getUser db currentUserId = Some caller"
  shows "accessDenied db currentUserId (Some target) = (\<not> selfOrAdmin caller target)"
  using assms getUser_id [OF assms] by (auto simp: accessDenied_def selfOrAdmin_def)

lemma accessDenied_self: "\<not> accessDenied db uid (Some uid)"
  by (simp add: accessDenied_def)

text \<open>
  C1. In the four statistics routes, for an authenticated session whose user row is
  found and a target user id, the request is answered with 403 exactly when the caller is
  neither the target nor an admin; otherwise the answer is what the storage query gives
  for the target. The 403 answer is a status and a message and carries no data.
\<close>

theorem stats_access_self_or_admin:
  assumes "isAuthenticated (Some currentUserId)"
    and "getUser db currentUserId = Some caller"
  shows
    "u_id caller = currentUserId \<and>
     userWeightRecordsRoute db (Some currentUserId) (Some target) start end =
       (if selfOrAdmin caller target
        then respond ''Failed to fetch weight records'' (getUserWeightRecords db target start end)
        else Status 403 ''Access denied'') \<and>
     dailyStatsRoute db (Some currentUserId) (Some target) date =
       (if selfOrAdmin caller target
        then respond ''Failed to fetch daily stats'' (getUserDailyStats db target date)
        else Status 403 ''Access denied'') \<and>
     monthlyStatsRoute tza db (Some currentUserId) (Some target) (Some year) (Some month) =
       (if selfOrAdmin caller target
        then respond ''Failed to fetch monthly stats'' (getUserMonthlyStats tza db target year month)
        else Status 403 ''Access denied'') \<and>
     userSummaryRoute tza now db (Some currentUserId) (Some target) =
       (if selfOrAdmin caller target
        then respond ''Failed to fetch user summary stats'' (getUserSummaryStats tza now db target)
        else Status 403 ''Access denied'') \<and>
     ((userWeightRecordsRoute db (Some currentUserId) (Some target) start end
          = Status 403 ''Access denied'') = (\<not> selfOrAdmin caller target)) \<and>
     ((dailyStatsRoute db (Some currentUserId) (Some target) date
          = Status 403 ''Access denied'') = (\<not> selfOrAdmin caller target)) \<and>
     ((monthlyStatsRoute tza db (Some currentUserId) (Some target) (Some year) (Some month)
          = Status 403 ''Access denied'') = (\<not> selfOrAdmin caller target)) \<and>
     ((userSummaryRoute tza now db (Some currentUserId) (Some target)
          = Status 403 ''Access denied'') = (\<not> selfOrAdmin caller target))"
proof -
  note d = accessDenied_resolved [OF assms(2), of target]
  have a: "userWeightRecordsRoute db (Some currentUserId) (Some target) start end =
       (if selfOrAdmin caller target
        then respond ''Failed to fetch weight records'' (getUserWeightRecords db target start end)
        else Status 403 ''Access denied'')"
    using assms(1) by (simp add: userWeightRecordsRoute_def d withUserId_def)
  have b: "dailyStatsRoute db (Some currentUserId) (Some target) date =
       (if selfOrAdmin caller target
        then respond ''Failed to fetch daily stats'' (getUserDailyStats db target date)
        else Status 403 ''Access denied'')"
    using assms(1) by (simp add: dailyStatsRoute_def d withUserId_def)
  have c: "monthlyStatsRoute tza db (Some currentUserId) (Some target) (Some year) (Some month) =
       (if selfOrAdmin caller target
        then respond ''Failed to fetch monthly stats'' (getUserMonthlyStats tza db target year month)
        else Status 403 ''Access denied'')"
    using assms(1) by (simp add: monthlyStatsRoute_def d withUserId_def)
  have e: "userSummaryRoute tza now db (Some currentUserId) (Some target) =
       (if selfOrAdmin caller target
        then respond ''Failed to fetch user summary stats'' (getUserSummaryStats tza now db target)
        else Status 403 ''Access denied'')"
    using assms(1) by (simp add: userSummaryRoute_def d withUserId_def)
  show ?thesis
    unfolding a b c e using getUser_id [OF assms(2)] by (simp add: respond_not_403)
qed

theorem stats_access_self_or_admin_witness:
  "isAuthenticated (Some 2) \<and> getUser sampleDb 2 = Some sampleWorker \<and>
   \<not> selfOrAdmin sampleWorker 3 \<and> selfOrAdmin sampleWorker 2 \<and>
   dailyStatsRoute sampleDb (Some 2) (Some 3) (Date sampleNow) = Status 403 ''Access denied'' \<and>
   dailyStatsRoute sampleDb (Some 2) (Some 2) (Date sampleNow) =
     respond ''Failed to fetch daily stats'' (getUserDailyStats sampleDb 2 (Date sampleNow)) \<and>
   isAuthenticated (Some 1) \<and> getUser sampleDb 1 = Some sampleAdmin \<and>
   selfOrAdmin sampleAdmin 3 \<and>
   dailyStatsRoute sampleDb (Some 1) (Some 3) (Date sampleNow) =
     respond ''Failed to fetch daily stats'' (getUserDailyStats sampleDb 3 (Date sampleNow))"
proof -
  have a2: "isAuthenticated (Some 2)" and a1: "isAuthenticated (Some 1)"
    by (simp_all add: isAuthenticated_def)
  have g2: "getUser sampleDb 2 = Some sampleWorker"
    by (simp add: getUser_def sampleDb_def sampleAdmin_def sampleWorker_def)
  have g1: "getUser sampleDb 1 = Some sampleAdmin"
    by (simp add: getUser_def sampleDb_def sampleAdmin_def)
  have s: "\<not> selfOrAdmin sampleWorker 3" "selfOrAdmin sampleWorker 2" "selfOrAdmin sampleAdmin 3"
    by (simp_all add: selfOrAdmin_def sampleWorker_def sampleAdmin_def)
  show ?thesis
    using stats_access_self_or_admin [OF a2 g2, of 3 None None "Date sampleNow" 0 2024 3 sampleNow]
      stats_access_self_or_admin [OF a2 g2, of 2 None None "Date sampleNow" 0 2024 3 sampleNow]
      stats_access_self_or_admin [OF a1 g1, of 3 None None "Date sampleNow" 0 2024 3 sampleNow]
      a1 a2 g1 g2 s
    by simp
qed

text \<open>
  C10. A caller whose session id is the target id is never answered with 401 or 403 by
  the four statistics routes, whatever the table of users holds: with no row of that id,
  or with a row whose active flag is off, the answer is what the storage query gives.
\<close>

theorem own_stats_without_user_row:
  assumes "isAuthenticated (Some uid)"
  shows
    "userWeightRecordsRoute db (Some uid) (Some uid) start end =
       respond ''Failed to fetch weight records'' (getUserWeightRecords db uid start end) \<and>
     dailyStatsRoute db (Some uid) (Some uid) date =
       respond ''Failed to fetch daily stats'' (getUserDailyStats db uid date) \<and>
     monthlyStatsRoute tza db (Some uid) (Some uid) (Some year) (Some month) =
       respond ''Failed to fetch monthly stats'' (getUserMonthlyStats tza db uid year month) \<and>
     userSummaryRoute tza now db (Some uid) (Some uid) =
       respond ''Failed to fetch user summary stats'' (getUserSummaryStats tza now db uid)"
  using assms
  by (simp add: userWeightRecordsRoute_def dailyStatsRoute_def monthlyStatsRoute_def
      userSummaryRoute_def accessDenied_self withUserId_def)

theorem own_stats_without_user_row_witness:
  "isAuthenticated (Some 3) \<and>
   getUser sampleDbWithout3 3 = None \<and>
   userWeightRecordsRoute sampleDbWithout3 (Some 3) (Some 3) None None =
     Json [sampleRecord 3 3 4 ''2024-02-29'' 300] \<and>
   map_option u_isActive (getUser sampleDb 3) = Some (Some False) \<and>
   userWeightRecordsRoute sampleDb (Some 3) (Some 3) None None =
     Json [sampleRecord 3 3 4 ''2024-02-29'' 300]"
proof -
  have a: "isAuthenticated (Some 3)"
    by (simp add: isAuthenticated_def)
  have g: "getUser sampleDbWithout3 3 = None"
    "map_option u_isActive (getUser sampleDb 3) = Some (Some False)"
    by (simp_all add: getUser_def sampleDbWithout3_def sampleDb_def sampleAdmin_def
        sampleWorker_def sampleInactive_def)
  have q: "getUserWeightRecords sampleDbWithout3 3 None None = Inr [sampleRecord 3 3 4 ''2024-02-29'' 300]"
    "getUserWeightRecords sampleDb 3 None None = Inr [sampleRecord 3 3 4 ''2024-02-29'' 300]"
    by (simp_all add: getUserWeightRecords_def sampleDbWithout3_def sampleDb_def
        sampleRecords_def sampleRecord_def orderByDateCreatedDesc_def)
  show ?thesis
    using own_stats_without_user_row [OF a, of sampleDbWithout3 None None "Date 0" 0 2024 3 0]
      own_stats_without_user_row [OF a, of sampleDb None None "Date 0" 0 2024 3 0] a g q
    by (simp add: respond_def)
qed

section \<open>Credentials\<close>

text \<open>
  C8. \<open>validateUser\<close> gives a row exactly when some stored user has that identifier, that
  password and the active flag true, and the row it gives is such a user; in every other
  case it gives nothing, and it has no error result. So the right credentials of a user
  whose active flag is off, and whose identifier no active user shares, give nothing.
\<close>

theorem validateUser_exact_match:
  "((\<exists>u. validateUser db cpf password = Some u) \<longleftrightarrow>
      (\<exists>u \<in> set (users db). u_cpf u = cpf \<and> u_password u = password \<and> u_isActive u = Some True)) \<and>
   (\<forall>u. validateUser db cpf password = Some u \<longrightarrow>
      u \<in> set (users db) \<and> u_cpf u = cpf \<and> u_password u = password \<and> u_isActive u = Some True) \<and>
   ((\<forall>u \<in> set (users db). u_cpf u = cpf \<longrightarrow> u_isActive u \<noteq> Some True) \<longrightarrow>
      validateUser db cpf password = None)"
proof -
  let ?P = "\<lambda>u. u_cpf u = cpf \<and> u_password u = password \<and> u_isActive u = Some True"
  have v: "validateUser db cpf password = find ?P (users db)"
    by (simp add: validateUser_def)
  have a: "(\<exists>u. find ?P (users db) = Some u) \<longleftrightarrow> (\<exists>u \<in> set (users db). ?P u)"
    using find_None_iff [of ?P "users db"] by (cases "find ?P (users db)") auto
  have b: "\<forall>u. find ?P (users db) = Some u \<longrightarrow> u \<in> set (users db) \<and> ?P u"
    by (auto simp: find_Some_iff)
  have c: "(\<forall>u \<in> set (users db). u_cpf u = cpf \<longrightarrow> u_isActive u \<noteq> Some True) \<longrightarrow>
      find ?P (users db) = None"
    by (auto simp: find_None_iff)
  show ?thesis
    unfolding v using a b c by blast
qed

theorem validateUser_exact_match_witness:
  "(\<exists>u \<in> set (users sampleDb). u_cpf u = ''22222222222'' \<and> u_password u = ''worker-pw''
       \<and> u_isActive u = Some True) \<and>
   validateUser sampleDb ''22222222222'' ''worker-pw'' = Some sampleWorker \<and>
   validateUser sampleDb ''22222222222'' ''wrong'' = None \<and>
   filter (\<lambda>u. u_cpf u = ''33333333333'' \<and> u_isActive u = Some True) (users sampleDb) = [] \<and>
   u_cpf sampleInactive = ''33333333333'' \<and> u_password sampleInactive = ''old-pw'' \<and>
   validateUser sampleDb ''33333333333'' ''old-pw'' = None"
proof -
  have h1: "\<exists>u \<in> set (users sampleDb). u_cpf u = ''22222222222'' \<and> u_password u = ''worker-pw''
       \<and> u_isActive u = Some True"
    by (simp add: sampleDb_def sampleAdmin_def sampleWorker_def sampleInactive_def)
  have h2: "\<forall>u \<in> set (users sampleDb). u_cpf u = ''33333333333'' \<longrightarrow> u_isActive u \<noteq> Some True"
    by (simp add: sampleDb_def sampleAdmin_def sampleWorker_def sampleInactive_def)
  have e: "validateUser sampleDb ''22222222222'' ''worker-pw'' = Some sampleWorker"
    "validateUser sampleDb ''22222222222'' ''wrong'' = None"
    by (simp_all add: validateUser_def sampleDb_def sampleAdmin_def sampleWorker_def
        sampleInactive_def)
  have n: "validateUser sampleDb ''33333333333'' ''old-pw'' = None"
    using validateUser_exact_match [of sampleDb "''33333333333''" "''old-pw''"] h2 by blast
  have f: "filter (\<lambda>u. u_cpf u = ''33333333333'' \<and> u_isActive u = Some True) (users sampleDb) = []"
    by (simp add: sampleDb_def sampleAdmin_def sampleWorker_def sampleInactive_def)
  show ?thesis
    using h1 f e n by (simp add: sampleInactive_def)
qed

section \<open>The calendar\<close>

lemma div_succ:
  fixes a k :: int
  assumes "0 < k"
  shows "(a + 1) div k = a div k + (if (a + 1) mod k = 0 then 1 else 0)"
proof -
  define q where "q = a div k"
  define r where "r = a mod k"
  have a: "a = k * q + r" by (simp add: q_def r_def)
  have r: "0 \<le> r" "r < k" using assms by (simp_all add: r_def)
  show ?thesis
  proof (cases "r = k - 1")
    case True
    then have e: "a + 1 = k * (q + 1) + 0" using a by (simp add: algebra_simps)
    have "(a + 1) div k = q + 1" using e assms by (intro int_div_pos_eq[where r=0]) auto
    moreover have "(a + 1) mod k = 0" using e assms by (intro int_mod_pos_eq[where q="q+1"]) auto
    ultimately show ?thesis by (simp add: q_def)
  next
    case False
    then have e: "a + 1 = k * q + (r + 1)" and b: "0 \<le> r + 1" "r + 1 < k"
      using a r by auto
    have "(a + 1) div k = q" using e b by (intro int_div_pos_eq[where r="r+1"]) auto
    moreover have "(a + 1) mod k = r + 1" using e b by (intro int_mod_pos_eq[where q=q]) auto
    ultimately show ?thesis using r by (simp add: q_def)
  qed
qed

lemma DayFromYear_Suc: "DayFromYear (y + 1) = DayFromYear y + DaysInYear y"
proof -
  have m4: "(y - 1969 + 1) mod 4 = y mod 4"
    using mod_mult_self2 [of y 4 "-492"] by simp
  have m100: "(y - 1901 + 1) mod 100 = y mod 100"
    using mod_mult_self2 [of y 100 "-19"] by simp
  have m400: "(y - 1601 + 1) mod 400 = y mod 400"
    using mod_mult_self2 [of y 400 "-4"] by simp
  have a: "(y + 1 - 1969) div 4 = (y - 1969) div 4 + (if y mod 4 = 0 then 1 else 0)"
    using div_succ [of 4 "y - 1969"] m4 by (simp add: algebra_simps)
  have b: "(y + 1 - 1901) div 100 = (y - 1901) div 100 + (if y mod 100 = 0 then 1 else 0)"
    using div_succ [of 100 "y - 1901"] m100 by (simp add: algebra_simps)
  have c: "(y + 1 - 1601) div 400 = (y - 1601) div 400 + (if y mod 400 = 0 then 1 else 0)"
    using div_succ [of 400 "y - 1601"] m400 by (simp add: algebra_simps)
  have d1: "y mod 100 = 0 \<Longrightarrow> y mod 4 = 0"
    using mod_mod_cancel [of 4 100 y] by simp
  have d2: "y mod 400 = 0 \<Longrightarrow> y mod 100 = 0"
    using mod_mod_cancel [of 100 400 y] by simp
  show ?thesis
    unfolding DayFromYear_def DaysInYear_def InLeapYear_def a b c
    using d1 d2 by auto
qed

lemma DaysInYear_pos: "0 < DaysInYear y"
  by (simp add: DaysInYear_def)

lemma DayFromYear_mono: "y \<le> z \<Longrightarrow> DayFromYear y \<le> DayFromYear z"
proof (induction z rule: int_ge_induct)
  case base
  show ?case by simp
next
  case (step i)
  then show ?case using DayFromYear_Suc [of i] DaysInYear_pos [of i] by linarith
qed

lemma div_bounds:
  fixes a k :: int
  assumes "0 < k"
  shows "k * (a div k) \<le> a" "a < k * (a div k) + k"
proof -
  have "a = k * (a div k) + a mod k" by simp
  moreover have "0 \<le> a mod k" "a mod k < k" using assms by simp_all
  ultimately show "k * (a div k) \<le> a" "a < k * (a div k) + k" by linarith+
qed

lemma DayFromYear_bounds:
  "146097 * y - 287811596 \<le> 400 * DayFromYear y"
  "400 * DayFromYear y \<le> 146097 * y - 287810501"
proof -
  define A where "A = (y - 1969) div 4"
  define B where "B = (y - 1901) div 100"
  define C where "C = (y - 1601) div 400"
  have a: "4 * A \<le> y - 1969" "y - 1969 < 4 * A + 4"
    unfolding A_def using div_bounds [of 4 "y - 1969"] by simp_all
  have b: "100 * B \<le> y - 1901" "y - 1901 < 100 * B + 100"
    unfolding B_def using div_bounds [of 100 "y - 1901"] by simp_all
  have c: "400 * C \<le> y - 1601" "y - 1601 < 400 * C + 400"
    unfolding C_def using div_bounds [of 400 "y - 1601"] by simp_all
  have d: "400 * DayFromYear y = 146000 * y - 287620000 + 400 * A - 400 * B + 400 * C"
    by (simp add: DayFromYear_def A_def B_def C_def)
  show "146097 * y - 287811596 \<le> 400 * DayFromYear y"
    unfolding d using a b c by linarith
  show "400 * DayFromYear y \<le> 146097 * y - 287810501"
    unfolding d using a b c by linarith
qed

lemma YearFromDay_spec:
  "DayFromYear (YearFromDay d) \<le> d \<and> d < DayFromYear (YearFromDay d + 1)"
proof -
  define q where "q = (400 * d) div 146097"
  define e where "e = 1970 + q"
  have q: "146097 * q \<le> 400 * d" "400 * d < 146097 * q + 146097"
    unfolding q_def using div_bounds [of 146097 "400 * d"] by simp_all
  have qe: "146097 * e - 287811090 \<le> 400 * d" "400 * d < 146097 * e - 287664993"
    using q by (simp_all add: e_def)
  have "400 * DayFromYear (e - 1) \<le> 146097 * e - 287956598"
    using DayFromYear_bounds(2) [of "e - 1"] by simp
  then have lo: "DayFromYear (e - 1) \<le> d"
    using qe by linarith
  have "146097 * e - 287519402 \<le> 400 * DayFromYear (e + 1 + 1)"
    using DayFromYear_bounds(1) [of "e + 1 + 1"] by simp
  then have hi: "d < DayFromYear (e + 1 + 1)"
    using qe by linarith
  have Y: "YearFromDay d = (if d < DayFromYear e then e - 1
      else if DayFromYear (e + 1) \<le> d then e + 1 else e)"
    by (simp add: YearFromDay_def Let_def e_def q_def)
  show ?thesis
    unfolding Y using lo hi by auto
qed

lemma YearFromDay_unique:
  assumes "DayFromYear y \<le> d" and "d < DayFromYear (y + 1)"
  shows "YearFromDay d = y"
proof (rule ccontr)
  assume ne: "YearFromDay d \<noteq> y"
  define z where "z = YearFromDay d"
  have s: "DayFromYear z \<le> d" "d < DayFromYear (z + 1)"
    using YearFromDay_spec [of d] by (simp_all add: z_def)
  consider "z + 1 \<le> y" | "y + 1 \<le> z" using ne z_def by linarith
  then show False
  proof cases
    case 1
    then show False using DayFromYear_mono [of "z + 1" y] assms s by linarith
  next
    case 2
    then show False using DayFromYear_mono [of "y + 1" z] assms s by linarith
  qed
qed

lemma month_cases:
  fixes m :: int
  assumes "0 \<le> m" and "m \<le> 11"
  obtains "m = 0" | "m = 1" | "m = 2" | "m = 3" | "m = 4" | "m = 5" | "m = 6"
    | "m = 7" | "m = 8" | "m = 9" | "m = 10" | "m = 11"
proof -
  have "m = 0 \<or> m = 1 \<or> m = 2 \<or> m = 3 \<or> m = 4 \<or> m = 5 \<or> m = 6
      \<or> m = 7 \<or> m = 8 \<or> m = 9 \<or> m = 10 \<or> m = 11"
    using assms by arith
  then show thesis using that by blast
qed

lemma MonthStart_next:
  assumes "0 \<le> m" and "m \<le> 11"
  shows "MonthStart (InLeapYear y) (m + 1) = MonthStart (InLeapYear y) m + calendarDaysInMonth y (m + 1)"
  using assms by (cases m rule: month_cases) (simp_all add: MonthStart_def calendarDaysInMonth_def)

lemma MonthStart_12: "MonthStart (InLeapYear y) 12 = DaysInYear y"
  by (simp add: MonthStart_def DaysInYear_def)

lemma MonthStart_0: "MonthStart l 0 = 0"
  by (simp add: MonthStart_def)

lemma MonthStart_bounds:
  assumes "0 \<le> m" and "m \<le> 11"
  shows "0 \<le> MonthStart (InLeapYear y) m"
    and "MonthStart (InLeapYear y) (m + 1) \<le> DaysInYear y"
  using assms by (cases m rule: month_cases; simp add: MonthStart_def DaysInYear_def)+

lemma calendarDaysInMonth_range: "calendarDaysInMonth y m \<in> {28, 29, 30, 31}"
  by (simp add: calendarDaysInMonth_def)

text \<open>Decoding the day number of a calendar day gives the calendar day back.\<close>

lemma civil_roundtrip:
  assumes m: "0 \<le> m" "m \<le> 11" and dt: "1 \<le> dt" "dt \<le> calendarDaysInMonth y (m + 1)"
  defines "d \<equiv> DayFromYear y + MonthStart (InLeapYear y) m + dt - 1"
  shows "YearFromDay d = y" and "MonthFromDay d = m" and "DateFromDay d = dt"
proof -
  let ?L = "InLeapYear y"
  have w0: "0 \<le> MonthStart ?L m" using MonthStart_bounds(1) [of m y] m by simp
  have w1: "MonthStart ?L m + dt - 1 < MonthStart ?L (m + 1)"
    using MonthStart_next [of m y] m dt by linarith
  have w2: "MonthStart ?L (m + 1) \<le> DaysInYear y"
    using MonthStart_bounds(2) [of m y] m by simp
  show Y: "YearFromDay d = y"
    using w0 w1 w2 dt DayFromYear_Suc [of y]
    by (intro YearFromDay_unique) (simp_all add: d_def)
  have W: "DayWithinYear d = MonthStart ?L m + dt - 1"
    by (simp add: DayWithinYear_def Y) (simp add: d_def)
  show M: "MonthFromDay d = m"
    using m dt
    by (cases m rule: month_cases)
       (auto simp: MonthFromDay_def Y W Let_def MonthStart_def calendarDaysInMonth_def)
  show "DateFromDay d = dt"
    by (simp add: DateFromDay_def Y W M)
qed

section \<open>The text of a date and the database\<close>

lemma DayWithinYear_range:
  "0 \<le> DayWithinYear d \<and> DayWithinYear d < DaysInYear (YearFromDay d)"
  using YearFromDay_spec [of d] DayFromYear_Suc [of "YearFromDay d"]
  by (simp add: DayWithinYear_def)

lemma MonthFromDay_bracket:
  "MonthStart (InLeapYear (YearFromDay d)) (MonthFromDay d) \<le> DayWithinYear d \<and>
   DayWithinYear d < MonthStart (InLeapYear (YearFromDay d)) (MonthFromDay d + 1)"
proof -
  define w where "w = DayWithinYear d"
  define l where "l = InLeapYear (YearFromDay d)"
  have w: "0 \<le> w" "w < (if l then 366 else 365)"
    using DayWithinYear_range [of d] by (simp_all add: w_def l_def DaysInYear_def)
  have m: "MonthFromDay d =
     (if w < MonthStart l 1 then 0 else if w < MonthStart l 2 then 1
      else if w < MonthStart l 3 then 2 else if w < MonthStart l 4 then 3
      else if w < MonthStart l 5 then 4 else if w < MonthStart l 6 then 5
      else if w < MonthStart l 7 then 6 else if w < MonthStart l 8 then 7
      else if w < MonthStart l 9 then 8 else if w < MonthStart l 10 then 9
      else if w < MonthStart l 11 then 10 else 11)"
    by (simp add: MonthFromDay_def Let_def w_def l_def)
  have s: "MonthStart l 0 = 0" "MonthStart l 12 = (if l then 366 else 365)"
    by (simp_all add: MonthStart_def)
  have "MonthStart l (MonthFromDay d) \<le> w \<and> w < MonthStart l (MonthFromDay d + 1)"
    unfolding m using w s by auto
  then show ?thesis
    by (simp add: w_def l_def)
qed

text \<open>Every day number decodes to a day of the calendar.\<close>

lemma civil_decode:
  "0 \<le> MonthFromDay d \<and> MonthFromDay d \<le> 11 \<and> 1 \<le> DateFromDay d \<and>
   DateFromDay d \<le> calendarDaysInMonth (YearFromDay d) (MonthFromDay d + 1)"
proof -
  have r: "0 \<le> MonthFromDay d" "MonthFromDay d \<le> 11"
    by (simp_all add: MonthFromDay_def Let_def)
  show ?thesis
    using r MonthFromDay_bracket [of d] MonthStart_next [OF r, of "YearFromDay d"]
    by (simp add: DateFromDay_def)
qed

lemma digitVal_table: "list_all (\<lambda>k. digitVal (''0123456789'' ! k) = Some (int k)) [0..<10]"
  by code_simp

lemma digitVal_digit: "digitVal (digit n) = Some (n mod 10)"
proof -
  have "nat (n mod 10) < 10"
    by simp
  then have "digitVal (''0123456789'' ! nat (n mod 10)) = Some (int (nat (n mod 10)))"
    using digitVal_table unfolding list_all_iff by (metis atLeast0LessThan lessThan_iff set_upt)
  then show ?thesis
    by (simp add: digit_def)
qed

lemma decimal_digits:
  fixes y :: int
  shows "10 * (10 * (10 * (y div 1000) + y div 100 mod 10) + y div 10 mod 10) + y mod 10 = y"
proof -
  have a1: "y div 100 = y div 10 div 10"
    using zdiv_zmult2_eq [of 10 y 10] by simp
  have a2: "y div 1000 = y div 100 div 10"
    using zdiv_zmult2_eq [of 10 y 100] by simp
  have b: "10 * (y div 10) + y mod 10 = y"
    "10 * (y div 10 div 10) + y div 10 mod 10 = y div 10"
    "10 * (y div 100 div 10) + y div 100 mod 10 = y div 100"
    by simp_all
  have "10 * (10 * (10 * (y div 1000) + y div 100 mod 10) + y div 10 mod 10) + y mod 10 =
      10 * (10 * (y div 100) + y div 10 mod 10) + y mod 10"
    by (simp only: a2 b(3))
  also have "\<dots> = 10 * (y div 10) + y mod 10"
    by (simp only: a1 b(2))
  also have "\<dots> = y"
    by (rule b(1))
  finally show ?thesis .
qed

lemma number4:
  assumes "digitVal a = Some p" and "digitVal b = Some q" and "digitVal c = Some r"
    and "digitVal d = Some s"
  shows "number [a, b, c, d] = Some (10 * (10 * (10 * p + q) + r) + s)"
  using assms by simp

lemma number2:
  assumes "digitVal a = Some p" and "digitVal b = Some q"
  shows "number [a, b] = Some (10 * p + q)"
  using assms by simp

lemma number_pad4:
  assumes "0 \<le> y" and "y \<le> 9999"
  shows "number [digit (y div 1000), digit (y div 100), digit (y div 10), digit y] = Some y"
proof -
  have "0 \<le> y div 1000" "y div 1000 < 10"
    using assms by simp_all
  then have h: "y div 1000 mod 10 = y div 1000"
    by simp
  have "number [digit (y div 1000), digit (y div 100), digit (y div 10), digit y] =
      Some (10 * (10 * (10 * (y div 1000 mod 10) + y div 100 mod 10) + y div 10 mod 10) + y mod 10)"
    by (rule number4 [OF digitVal_digit digitVal_digit digitVal_digit digitVal_digit])
  then show ?thesis
    by (simp only: h decimal_digits)
qed

lemma number_pad2:
  assumes "0 \<le> m" and "m \<le> 99"
  shows "number [digit (m div 10), digit m] = Some m"
proof -
  have "0 \<le> m div 10" "m div 10 < 10"
    using assms by simp_all
  then have h: "m div 10 mod 10 = m div 10"
    by simp
  have "number [digit (m div 10), digit m] = Some (10 * (m div 10 mod 10) + m mod 10)"
    by (rule number2 [OF digitVal_digit digitVal_digit])
  then show ?thesis
    by (simp only: h mult_div_mod_eq)
qed

text \<open>The database takes the text of every day of the years 0001 to 9999.\<close>

lemma dateAccepted_isoDate:
  assumes "1 \<le> y" and "y \<le> 9999" and "1 \<le> m" and "m \<le> 12"
    and "1 \<le> d" and "d \<le> calendarDaysInMonth y m"
  shows "dateAccepted (isoDate y m d)"
proof -
  have d: "d \<le> 99"
    using assms(6) calendarDaysInMonth_range [of y m] by auto
  have n: "number [digit (y div 1000), digit (y div 100), digit (y div 10), digit y] = Some y"
    "number [digit (m div 10), digit m] = Some m"
    "number [digit (d div 10), digit d] = Some d"
    using assms d by (intro number_pad4 number_pad2; simp)+
  show ?thesis
    using assms
    by (simp add: dateAccepted_def isoDate_def isoYear_def pad4_def pad2_def n del: number.simps)
qed

lemma dateAccepted_isoDateOfTime:
  assumes "1 \<le> getUTCFullYear t" and "getUTCFullYear t \<le> 9999"
  shows "dateAccepted (isoDateOfTime t)"
  unfolding isoDateOfTime_def
  using assms civil_decode [of "Day t"]
  by (intro dateAccepted_isoDate) (simp_all add: getUTCFullYear_def)

text \<open>It takes no other text of a Date: year 0000 and the six-digit years are rejected.\<close>

lemma dateAccepted_year:
  assumes "dateAccepted (isoDateOfTime t)"
  shows "1 \<le> getUTCFullYear t \<and> getUTCFullYear t \<le> 9999"
proof -
  let ?y = "YearFromDay (Day t)"
  let ?m = "MonthFromDay (Day t) + 1"
  let ?d = "DateFromDay (Day t)"
  have len: "length (isoDate ?y ?m ?d) = 10"
    using assms by (simp add: dateAccepted_def isoDateOfTime_def)
  have r: "0 \<le> ?y \<and> ?y \<le> 9999"
  proof (rule ccontr)
    assume "\<not> (0 \<le> ?y \<and> ?y \<le> 9999)"
    then have "length (isoDate ?y ?m ?d) = 13"
      by (simp add: isoDate_def isoYear_def pad6_def pad4_def pad2_def)
    then show False
      using len by simp
  qed
  have "number (take 4 (isoDate ?y ?m ?d)) = Some ?y"
    using r by (simp add: isoDate_def isoYear_def pad4_def pad2_def number_pad4 del: number.simps)
  then have "1 \<le> ?y"
    using assms by (auto simp: dateAccepted_def isoDateOfTime_def split: option.splits)
  then show ?thesis
    using r by (simp add: getUTCFullYear_def)
qed

section \<open>Listing weight records\<close>




lemma mset_orderByDateCreatedDesc: "mset (orderByDateCreatedDesc rows) = mset rows"
  by (simp add: orderByDateCreatedDesc_def)













section \<open>Daily statistics\<close>


lemma length_mset_cong: "mset xs = mset ys \<Longrightarrow> length xs = length ys"
  by (metis size_mset)





section \<open>Monthly statistics\<close>

lemma foldl_groupStep_snoc:
  "foldl groupStep [] (rs @ [r]) = groupStep (foldl groupStep [] rs) r"
  by simp

lemma groupStep_distinct: "distinct (map fst acc) \<Longrightarrow> distinct (map fst (groupStep acc r))"
  by (simp add: groupStep_def Let_def distinct_update)

lemma groupStep_map_of:
  "map_of (groupStep acc r) k =
     (if k = w_date r
      then Some (case map_of acc k of
                   None \<Rightarrow> \<lparr> de_date = k, de_weight = fadd 0 (parseFloat (w_weight r)),
                             de_recordCount = 1 \<rparr>
                 | Some e \<Rightarrow> e\<lparr> de_weight := fadd (de_weight e) (parseFloat (w_weight r)),
                                de_recordCount := de_recordCount e + 1 \<rparr>)
      else map_of acc k)"
  by (simp add: groupStep_def Let_def update_conv' split: option.splits)

lemma group_distinct: "distinct (map fst (foldl groupStep [] rs))"
proof (induction rs rule: rev_induct)
  case Nil
  show ?case by simp
next
  case (snoc r rs)
  show ?case
    unfolding foldl_groupStep_snoc using snoc.IH by (rule groupStep_distinct)
qed

lemma filter_date_none: "k \<notin> w_date ` set rs \<Longrightarrow> filter (\<lambda>r. w_date r = k) rs = []"
  by (auto simp: filter_empty_conv)

lemma sumWeights_snoc:
  "sumWeights (rs @ [r]) = fadd (sumWeights rs) (parseFloat (w_weight r))"
  by (simp add: sumWeights_def)

lemma group_map_of:
  "map_of (foldl groupStep [] rs) k =
     (if k \<in> w_date ` set rs
      then Some \<lparr> de_date = k,
                  de_weight = sumWeights (filter (\<lambda>r. w_date r = k) rs),
                  de_recordCount = length (filter (\<lambda>r. w_date r = k) rs) \<rparr>
      else None)"
proof (induction rs rule: rev_induct)
  case Nil
  show ?case by simp
next
  case (snoc r rs)
  show ?case
  proof (cases "k = w_date r")
    case False
    then show ?thesis
      unfolding foldl_groupStep_snoc groupStep_map_of snoc.IH by auto
  next
    case True
    show ?thesis
    proof (cases "k \<in> w_date ` set rs")
      case True
      with \<open>k = w_date r\<close> show ?thesis
        unfolding foldl_groupStep_snoc groupStep_map_of snoc.IH
        by (simp add: sumWeights_snoc)
    next
      case False
      with \<open>k = w_date r\<close> filter_date_none [OF False] show ?thesis
        unfolding foldl_groupStep_snoc groupStep_map_of snoc.IH
        by (simp add: sumWeights_def)
    qed
  qed
qed

lemma group_entry:
  assumes "e \<in> set (map snd (foldl groupStep [] rs))"
  shows "de_date e \<in> w_date ` set rs"
    and "de_recordCount e = length (filter (\<lambda>r. w_date r = de_date e) rs)"
    and "de_weight e = sumWeights (filter (\<lambda>r. w_date r = de_date e) rs)"
proof -
  from assms obtain k where k: "(k, e) \<in> set (foldl groupStep [] rs)"
    by auto
  then have "map_of (foldl groupStep [] rs) k = Some e"
    using group_distinct [of rs] by simp
  then have m: "k \<in> w_date ` set rs \<and> e = \<lparr> de_date = k,
                  de_weight = sumWeights (filter (\<lambda>r. w_date r = k) rs),
                  de_recordCount = length (filter (\<lambda>r. w_date r = k) rs) \<rparr>"
    unfolding group_map_of by (auto split: if_splits)
  then have d: "de_date e = k"
    by simp
  show "de_date e \<in> w_date ` set rs" using m d by simp
  show "de_recordCount e = length (filter (\<lambda>r. w_date r = de_date e) rs)"
    using m d by simp
  show "de_weight e = sumWeights (filter (\<lambda>r. w_date r = de_date e) rs)"
    using m d by simp
qed

lemma group_dates_distinct: "distinct (map (de_date \<circ> snd) (foldl groupStep [] rs))"
proof -
  have "map (de_date \<circ> snd) (foldl groupStep [] rs) = map fst (foldl groupStep [] rs)"
  proof (rule map_cong [OF refl])
    fix p assume p: "p \<in> set (foldl groupStep [] rs)"
    then have "map_of (foldl groupStep [] rs) (fst p) = Some (snd p)"
      using group_distinct [of rs] by simp
    then have "snd p = \<lparr> de_date = fst p,
        de_weight = sumWeights (filter (\<lambda>r. w_date r = fst p) rs),
        de_recordCount = length (filter (\<lambda>r. w_date r = fst p) rs) \<rparr>"
      unfolding group_map_of by (simp split: if_splits)
    then have "de_date (snd p) = fst p"
      by simp
    then show "(de_date \<circ> snd) p = fst p"
      by simp
  qed
  then show ?thesis
    by (simp only: group_distinct)
qed

lemma group_dates_cover: "w_date ` set rs \<subseteq> set (map (de_date \<circ> snd) (foldl groupStep [] rs))"
proof
  fix k assume "k \<in> w_date ` set rs"
  then have "map_of (foldl groupStep [] rs) k =
      Some \<lparr> de_date = k, de_weight = sumWeights (filter (\<lambda>r. w_date r = k) rs),
             de_recordCount = length (filter (\<lambda>r. w_date r = k) rs) \<rparr>"
    by (simp add: group_map_of)
  then have "(k, \<lparr> de_date = k, de_weight = sumWeights (filter (\<lambda>r. w_date r = k) rs),
             de_recordCount = length (filter (\<lambda>r. w_date r = k) rs) \<rparr>)
        \<in> set (foldl groupStep [] rs)"
    by (rule map_of_SomeD)
  then have "(de_date \<circ> snd) (k, \<lparr> de_date = k, de_weight = sumWeights (filter (\<lambda>r. w_date r = k) rs),
             de_recordCount = length (filter (\<lambda>r. w_date r = k) rs) \<rparr>)
        \<in> (de_date \<circ> snd) ` set (foldl groupStep [] rs)"
    by (rule imageI)
  then show "k \<in> set (map (de_date \<circ> snd) (foldl groupStep [] rs))"
    by simp
qed

text \<open>Grouping by a key splits a list: added over the keys, the groups give the whole.\<close>

lemma sum_list_pick_none:
  fixes c :: "'b :: comm_monoid_add"
  assumes "a \<notin> set ks"
  shows "sum_list (map (\<lambda>k. if a = k then c else 0) ks) = 0"
  using assms by (induction ks) auto

lemma sum_list_pick:
  fixes c :: "'b :: comm_monoid_add"
  assumes "distinct ks" and "a \<in> set ks"
  shows "sum_list (map (\<lambda>k. if a = k then c else 0) ks) = c"
  using assms by (induction ks) (auto simp: sum_list_pick_none)

lemma sum_list_groups:
  fixes f :: "'a \<Rightarrow> 'b :: comm_monoid_add"
  assumes "distinct ks" and "key ` set xs \<subseteq> set ks"
  shows "sum_list (map (\<lambda>k. sum_list (map f (filter (\<lambda>x. key x = k) xs))) ks) = sum_list (map f xs)"
  using assms(2)
proof (induction xs)
  case Nil
  show ?case by simp
next
  case (Cons x xs)
  have k: "key x \<in> set ks" and s: "key ` set xs \<subseteq> set ks"
    using Cons.prems by simp_all
  have "sum_list (map (\<lambda>k. sum_list (map f (filter (\<lambda>x. key x = k) (x # xs)))) ks) =
      sum_list (map (\<lambda>k. (if key x = k then f x else 0)
        + sum_list (map f (filter (\<lambda>x. key x = k) xs))) ks)"
    by (rule arg_cong [where f = sum_list], rule map_cong) simp_all
  also have "\<dots> = sum_list (map (\<lambda>k. if key x = k then f x else 0) ks)
      + sum_list (map (\<lambda>k. sum_list (map f (filter (\<lambda>x. key x = k) xs))) ks)"
    by (rule sum_list_addf)
  also have "\<dots> = f x + sum_list (map f xs)"
    using sum_list_pick [OF assms(1) k, of "f x"] Cons.IH [OF s] by simp
  finally show ?case
    by simp
qed

lemma sum_list_ones: "sum_list (map (\<lambda>_. Suc 0) ys) = length ys"
  by (induction ys) simp_all

lemma length_groups:
  assumes "distinct ks" and "key ` set xs \<subseteq> set ks"
  shows "sum_list (map (\<lambda>k. length (filter (\<lambda>x. key x = k) xs)) ks) = length xs"
proof -
  have "sum_list (map (\<lambda>k. sum_list (map (\<lambda>_. Suc 0) (filter (\<lambda>x. key x = k) xs))) ks) =
      sum_list (map (\<lambda>_. Suc 0) xs)"
    by (rule sum_list_groups [OF assms])
  then show ?thesis
    by (simp only: sum_list_ones)
qed

lemma getUserWeightRecords_both_Inr:
  assumes "getUserWeightRecords db userId (Some s) (Some e) = Inr records"
  obtains lo hi where "toISODate s = Inr lo" and "toISODate e = Inr hi"
    and "mset records =
      mset (filter (\<lambda>r. w_userId r = userId \<and> lo \<le> w_date r \<and> w_date r \<le> hi) (weightRecords db))"
  using assms
  by (auto simp: getUserWeightRecords_def mset_orderByDateCreatedDesc split: sum.splits if_splits)

lemma getUserMonthlyStats_Inr:
  assumes "getUserMonthlyStats tza db userId year month = Inr st"
  obtains records where
    "getUserWeightRecords db userId (Some (newDate tza year (month - 1) 1))
       (Some (newDate tza year month 0)) = Inr records"
    and "st = \<lparr> ms_totalWeight = sumWeights records, ms_recordCount = length records,
               ms_dailyStats = sort_key de_date (map snd (foldl groupStep [] records)) \<rparr>"
  using assms by (auto simp: getUserMonthlyStats_def Let_def split: sum.splits)

lemma length_filter_mset_cong:
  assumes "mset xs = mset ys"
  shows "length (filter P xs) = length (filter P ys)"
proof -
  have "mset (filter P xs) = mset (filter P ys)"
    using assms by (metis mset_filter)
  then show ?thesis
    by (rule length_mset_cong)
qed

text \<open>
  C3, as the code has it. With stored dates of the years 0001 to 9999, whenever
  \<open>getUserMonthlyStats\<close> returns, its total is what adding the weights of the month's
  records as doubles gives, in the order of the query; each
  entry counts the stored records of the user on exactly the date of the entry (at least
  one), and its weight is what adding the weights of those records as doubles gives, in
  the same order; the counts of the entries add up to the count of the month; the entries
  split the records of the month, so that the exact sums of the weights agree; and the
  entries are in strictly ascending order of their date text.
\<close>

theorem monthly_stats_entries:
  assumes "storedDatesFourDigit db"
    and "getUserMonthlyStats tza db userId year month = Inr st"
  shows
    "\<exists>records.
       getUserWeightRecords db userId (Some (newDate tza year (month - 1) 1))
         (Some (newDate tza year month 0)) = Inr records \<and>
       ms_totalWeight st = sumWeights records \<and>
       ms_recordCount st = length records \<and>
       (\<forall>e \<in> set (ms_dailyStats st).
          de_recordCount e = length (filter (ofUserOnDate userId (de_date e)) (weightRecords db)) \<and>
          0 < de_recordCount e \<and>
          de_weight e = sumWeights (filter (\<lambda>r. w_date r = de_date e) records)) \<and>
       sum_list (map de_recordCount (ms_dailyStats st)) = ms_recordCount st \<and>
       sum_list (map (\<lambda>e. sum_list (map (\<lambda>r. parseFloat (w_weight r))
                                   (filter (\<lambda>r. w_date r = de_date e) records)))
                  (ms_dailyStats st)) =
         sum_list (map (\<lambda>r. parseFloat (w_weight r)) records) \<and>
       sorted (map de_date (ms_dailyStats st)) \<and>
       distinct (map de_date (ms_dailyStats st))"
proof -
  from assms(2) obtain records where
    q: "getUserWeightRecords db userId (Some (newDate tza year (month - 1) 1))
       (Some (newDate tza year month 0)) = Inr records"
    and st: "st = \<lparr> ms_totalWeight = sumWeights records, ms_recordCount = length records,
               ms_dailyStats = sort_key de_date (map snd (foldl groupStep [] records)) \<rparr>"
    by (rule getUserMonthlyStats_Inr)
  from q obtain lo hi where
    m: "mset records =
      mset (filter (\<lambda>r. w_userId r = userId \<and> lo \<le> w_date r \<and> w_date r \<le> hi) (weightRecords db))"
    by (rule getUserWeightRecords_both_Inr)
  let ?g = "map snd (foldl groupStep [] records)"
  have d: "ms_dailyStats st = sort_key de_date ?g"
    by (simp add: st)
  have 2: "de_recordCount e = length (filter (ofUserOnDate userId (de_date e)) (weightRecords db))
      \<and> 0 < de_recordCount e
      \<and> de_weight e = sumWeights (filter (\<lambda>r. w_date r = de_date e) records)"
    if e: "e \<in> set (ms_dailyStats st)" for e
  proof -
    have g: "e \<in> set ?g"
      using e by (simp add: d)
    have c: "de_recordCount e = length (filter (\<lambda>r. w_date r = de_date e) records)"
      using group_entry(2) [OF g] .
    from group_entry(1) [OF g] obtain r0 where r0: "r0 \<in> set records" "w_date r0 = de_date e"
      by auto
    then have "r0 \<in># mset records"
      by simp
    then have b: "lo \<le> de_date e \<and> de_date e \<le> hi"
      unfolding m using r0(2) by auto
    have "length (filter (\<lambda>r. w_date r = de_date e) records) =
        length (filter (\<lambda>r. w_date r = de_date e)
          (filter (\<lambda>r. w_userId r = userId \<and> lo \<le> w_date r \<and> w_date r \<le> hi) (weightRecords db)))"
      by (rule length_filter_mset_cong [OF m])
    also have "\<dots> = length (filter (ofUserOnDate userId (de_date e)) (weightRecords db))"
      unfolding filter_filter
      by (rule arg_cong [where f = length], rule filter_cong) (use b in \<open>auto simp: ofUserOnDate_def\<close>)
    finally have n: "de_recordCount e =
        length (filter (ofUserOnDate userId (de_date e)) (weightRecords db))"
      using c by simp
    have "filter (\<lambda>r. w_date r = de_date e) records \<noteq> []"
      using r0 by (auto simp: filter_empty_conv)
    then have p: "0 < de_recordCount e"
      unfolding c by simp
    show ?thesis
      using n p group_entry(3) [OF g] by blast
  qed
  have 3: "sorted (map de_date (ms_dailyStats st))"
    unfolding d by (rule sorted_sort_key)
  have ms: "mset (map de_date (sort_key de_date ?g)) = mset (map de_date ?g)"
    by (simp only: mset_map mset_sort)
  then have i: "distinct (map de_date (sort_key de_date ?g)) = distinct (map de_date ?g)"
    by (rule mset_eq_imp_distinct_iff)
  have dg: "distinct (map de_date ?g)"
    using group_dates_distinct [of records] by (simp only: map_map)
  then have 4: "distinct (map de_date (ms_dailyStats st))"
    unfolding d i .
  have cover: "w_date ` set records \<subseteq> set (map de_date (ms_dailyStats st))"
  proof -
    have "set (map de_date (sort_key de_date ?g)) = set (map de_date ?g)"
      using ms by (rule mset_eq_setD)
    then show ?thesis
      using group_dates_cover [of records] by (simp only: d map_map)
  qed
  have cnt: "map de_recordCount (ms_dailyStats st) =
      map (\<lambda>k. length (filter (\<lambda>r. w_date r = k) records)) (map de_date (ms_dailyStats st))"
  proof -
    have "de_recordCount e = length (filter (\<lambda>r. w_date r = de_date e) records)"
      if "e \<in> set (ms_dailyStats st)" for e
      using that group_entry(2) [of e records] by (simp add: d)
    then show ?thesis
      by (simp add: comp_def cong: map_cong)
  qed
  have 5: "sum_list (map de_recordCount (ms_dailyStats st)) = ms_recordCount st"
    unfolding cnt using length_groups [OF 4 cover] by (simp add: st)
  have "sum_list (map (\<lambda>k. sum_list (map (\<lambda>r. parseFloat (w_weight r))
          (filter (\<lambda>r. w_date r = k) records))) (map de_date (ms_dailyStats st))) =
        sum_list (map (\<lambda>r. parseFloat (w_weight r)) records)"
    by (rule sum_list_groups [OF 4 cover])
  then have 6: "sum_list (map (\<lambda>e. sum_list (map (\<lambda>r. parseFloat (w_weight r))
          (filter (\<lambda>r. w_date r = de_date e) records))) (ms_dailyStats st)) =
        sum_list (map (\<lambda>r. parseFloat (w_weight r)) records)"
    by (simp add: comp_def)
  have 0: "ms_totalWeight st = sumWeights records" "ms_recordCount st = length records"
    by (simp_all add: st)
  show ?thesis
    using q 0 2 3 4 5 6 by blast
qed

theorem monthly_stats_entries_witness:
  "storedDatesFourDigit sampleDb \<and>
   getUserMonthlyStats 0 sampleDb 2 2024 3 =
     Inr \<lparr> ms_totalWeight = 23, ms_recordCount = 3,
           ms_dailyStats =
             [\<lparr> de_date = ''2024-03-01'', de_weight = 3, de_recordCount = 1 \<rparr>,
              \<lparr> de_date = ''2024-03-15'', de_weight = 20, de_recordCount = 2 \<rparr>] \<rparr> \<and>
   length (filter (ofUserOnDate 2 ''2024-03-15'') (weightRecords sampleDb)) = 2 \<and>
   length (filter (ofUserOnDate 2 ''2024-03-01'') (weightRecords sampleDb)) = 1 \<and>
   sum_list (map de_recordCount
     [\<lparr> de_date = ''2024-03-01'', de_weight = 3, de_recordCount = 1 \<rparr>,
      \<lparr> de_date = ''2024-03-15'', de_weight = 20, de_recordCount = 2 \<rparr>]) = 3"
proof -
  have r: "getUserMonthlyStats 0 sampleDb 2 2024 3 =
     Inr \<lparr> ms_totalWeight = 23, ms_recordCount = 3,
           ms_dailyStats =
             [\<lparr> de_date = ''2024-03-01'', de_weight = 3, de_recordCount = 1 \<rparr>,
              \<lparr> de_date = ''2024-03-15'', de_weight = 20, de_recordCount = 2 \<rparr>] \<rparr>"
    by code_simp
  have sd: "storedDatesFourDigit sampleDb"
    by code_simp
  from monthly_stats_entries [OF sd r] obtain records where
    "\<forall>e \<in> set [\<lparr> de_date = ''2024-03-01'', de_weight = 3, de_recordCount = 1 \<rparr>,
              \<lparr> de_date = ''2024-03-15'', de_weight = 20, de_recordCount = 2 \<rparr>].
       de_recordCount e = length (filter (ofUserOnDate 2 (de_date e)) (weightRecords sampleDb)) \<and>
       0 < de_recordCount e \<and>
       de_weight e = sumWeights (filter (\<lambda>r. w_date r = de_date e) records)"
    by auto
  then show ?thesis
    using r sd by simp
qed

text \<open>
  C3, as it is stated, fails. User 2 has the weights 0.10 and 0.20 on 2024-03-01 and 0.30
  on 2024-03-02. The entries are the doubles 0.30000000000000004 and 0.3, which add up to
  0.6000000000000001 as doubles (and to no double when added exactly), but the total of
  the month is the double 0.6.
\<close>

theorem monthly_entries_do_not_add_up:
  "getUserMonthlyStats 0 roundingDb 2 2024 3 =
     Inr \<lparr> ms_totalWeight = 5404319552844595 / 9007199254740992, ms_recordCount = 3,
           ms_dailyStats =
             [\<lparr> de_date = ''2024-03-01'', de_weight = 1351079888211149 / 4503599627370496,
                de_recordCount = 2 \<rparr>,
              \<lparr> de_date = ''2024-03-02'', de_weight = 5404319552844595 / 18014398509481984,
                de_recordCount = 1 \<rparr>] \<rparr> \<and>
   fadd (fadd 0 (1351079888211149 / 4503599627370496)) (5404319552844595 / 18014398509481984) =
     1351079888211149 / 2251799813685248 \<and>
   (1351079888211149 / 2251799813685248 :: rat) \<noteq> 5404319552844595 / 9007199254740992 \<and>
   (1351079888211149 / 4503599627370496 + 5404319552844595 / 18014398509481984 :: rat) \<noteq>
     5404319552844595 / 9007199254740992"
  by code_simp

section \<open>The daily average\<close>

lemma MonthFromDay_range: "0 \<le> MonthFromDay d \<and> MonthFromDay d \<le> 11"
  by (simp add: MonthFromDay_def Let_def)

lemma MakeDay_in_year:
  assumes "0 \<le> m" and "m \<le> 11"
  shows "MakeDay y m dt = DayFromYear y + MonthStart (InLeapYear y) m + dt - 1"
proof -
  have "m div 12 = 0" "m mod 12 = m"
    using assms by simp_all
  then show ?thesis
    by (simp add: MakeDay_def Let_def)
qed

lemma MakeDay_month_end:
  assumes "0 \<le> m" and "m \<le> 11"
  shows "MakeDay y (m + 1) 0 =
     DayFromYear y + MonthStart (InLeapYear y) m + calendarDaysInMonth y (m + 1) - 1"
proof (cases "m = 11")
  case True
  have "MakeDay y 12 0 = DayFromYear (y + 1) - 1"
    by (simp add: MakeDay_def Let_def MonthStart_0)
  also have "\<dots> = DayFromYear y + DaysInYear y - 1"
    by (simp add: DayFromYear_Suc)
  also have "\<dots> = DayFromYear y + MonthStart (InLeapYear y) 11 + calendarDaysInMonth y 12 - 1"
    by (simp add: DaysInYear_def MonthStart_def calendarDaysInMonth_def)
  finally show ?thesis
    using True by simp
next
  case False
  then have "0 \<le> m + 1" "m + 1 \<le> 11"
    using assms by simp_all
  then have "MakeDay y (m + 1) 0 = DayFromYear y + MonthStart (InLeapYear y) (m + 1) + 0 - 1"
    by (rule MakeDay_in_year)
  then show ?thesis
    using MonthStart_next [OF assms, of y] by simp
qed

lemma Day_of_local_midnight:
  assumes "- msPerDay < tza" and "tza \<le> 0"
  shows "Day (UTC tza (MakeDate d 0)) = d"
proof -
  have "d * msPerDay - tza = msPerDay * d + (- tza)"
    by simp
  moreover have "0 \<le> - tza" "- tza < msPerDay"
    using assms by simp_all
  ultimately have "(d * msPerDay - tza) div msPerDay = d"
    using int_div_pos_eq [of "d * msPerDay - tza" msPerDay d "- tza"] by simp
  then show ?thesis
    by (simp add: Day_def UTC_def MakeDate_def)
qed

lemma Day_LocalTime_UTC: "Day (LocalTime tza (UTC tza (MakeDate d 0))) = d"
  by (simp add: Day_def LocalTime_def UTC_def MakeDate_def msPerDay_def)

lemma newDate_Date:
  assumes "newDate tza year month dt = Date t" and "\<not> (0 \<le> year \<and> year \<le> 99)"
  shows "t = UTC tza (MakeDate (MakeDay year month dt) 0)"
  using assms by (auto simp: newDate_def TimeClip_def Let_def split: if_splits)

text \<open>The day of the month of the end of a month is the length of that month.\<close>

lemma getDate_month_end:
  assumes "\<not> (0 \<le> y \<and> y \<le> 99)" and "0 \<le> m" and "m \<le> 11"
    and "newDate tza y (m + 1) 0 = Date t"
  shows "getDate tza t = calendarDaysInMonth y (m + 1)"
proof -
  let ?n = "calendarDaysInMonth y (m + 1)"
  have t: "t = UTC tza (MakeDate (MakeDay y (m + 1) 0) 0)"
    using newDate_Date [OF assms(4) assms(1)] .
  have d: "Day (LocalTime tza t) = DayFromYear y + MonthStart (InLeapYear y) m + ?n - 1"
    unfolding t Day_LocalTime_UTC by (rule MakeDay_month_end [OF assms(2,3)])
  have n: "1 \<le> ?n"
    using calendarDaysInMonth_range [of y "m + 1"] by auto
  show ?thesis
    unfolding getDate_def d
    by (rule civil_roundtrip(3) [OF assms(2,3) n]) simp
qed

lemma getDashboardStats_Inr:
  assumes "getDashboardStats tza now db = Inr st"
  obtains t where "newDate tza (getFullYear tza now) (getMonth tza now + 1) 0 = Date t"
    and "da_avgDaily st = fdiv (da_totalMonth st) (of_int (getDate tza t))"
  using assms
  by (auto simp: getDashboardStats_def Let_def split: sum.splits jsDate.splits if_splits)

lemma getUserSummaryStats_Inr:
  assumes "getUserSummaryStats tza now db userId = Inr su"
  obtains t where "newDate tza (getFullYear tza now) (getMonth tza now + 1) 0 = Date t"
    and "su_avgDaily su = fdiv (su_totalMonth su) (of_int (getDate tza t))"
  using assms
  by (auto simp: getUserSummaryStats_def Let_def split: sum.splits jsDate.splits if_splits)

text \<open>
  C4. With the server clock in a year from 100 on, the average that the dashboard and the
  user summary return is the month total they return divided, as JavaScript divides two
  numbers, by the number of calendar days of the current local month, 28, 29, 30 or 31,
  whatever the day of the month is.
\<close>

theorem avgDaily_is_total_by_month_length:
  assumes "100 \<le> getFullYear tza now"
  shows
    "(\<forall>st. getDashboardStats tza now db = Inr st \<longrightarrow>
        da_avgDaily st =
          fdiv (da_totalMonth st)
            (of_int (calendarDaysInMonth (getFullYear tza now) (getMonth tza now + 1)))) \<and>
     (\<forall>su. getUserSummaryStats tza now db userId = Inr su \<longrightarrow>
        su_avgDaily su =
          fdiv (su_totalMonth su)
            (of_int (calendarDaysInMonth (getFullYear tza now) (getMonth tza now + 1)))) \<and>
     calendarDaysInMonth (getFullYear tza now) (getMonth tza now + 1) \<in> {28, 29, 30, 31}"
proof -
  let ?y = "getFullYear tza now" and ?m = "getMonth tza now"
  have y: "\<not> (0 \<le> ?y \<and> ?y \<le> 99)"
    using assms by simp
  have m: "0 \<le> ?m" "?m \<le> 11"
    using MonthFromDay_range [of "Day (LocalTime tza now)"] by (simp_all add: getMonth_def)
  have g: "getDate tza t = calendarDaysInMonth ?y (?m + 1)"
    if "newDate tza ?y (?m + 1) 0 = Date t" for t
    using getDate_month_end [OF y m that] .
  have 1: "da_avgDaily st = fdiv (da_totalMonth st) (of_int (calendarDaysInMonth ?y (?m + 1)))"
    if "getDashboardStats tza now db = Inr st" for st
    using getDashboardStats_Inr [OF that] g by metis
  have 2: "su_avgDaily su = fdiv (su_totalMonth su) (of_int (calendarDaysInMonth ?y (?m + 1)))"
    if "getUserSummaryStats tza now db userId = Inr su" for su
    using getUserSummaryStats_Inr [OF that] g by metis
  show ?thesis
    using 1 2 calendarDaysInMonth_range [of ?y "?m + 1"] by blast
qed

theorem avgDaily_is_total_by_month_length_witness:
  "100 \<le> getFullYear utcMinus3 1707566400000 \<and>
   getFullYear utcMinus3 1707566400000 = 2024 \<and> getMonth utcMinus3 1707566400000 + 1 = 2 \<and>
   calendarDaysInMonth 2024 2 = 29 \<and>
   getDashboardStats utcMinus3 1707566400000 sampleDb =
     Inr \<lparr> da_totalToday = 0, da_activeUsers = 2,
           da_avgDaily = 2872985969184627 / 9007199254740992, da_totalMonth = 37 / 4 \<rparr> \<and>
   getUserSummaryStats utcMinus3 1707566400000 sampleDb 2 =
     Inr \<lparr> su_totalToday = 0, su_totalMonth = 21 / 4,
           su_avgDaily = 6522454632743477 / 36028797018963968 \<rparr> \<and>
   (2872985969184627 / 9007199254740992 :: rat) = fdiv (37 / 4) (of_int 29) \<and>
   (6522454632743477 / 36028797018963968 :: rat) = fdiv (21 / 4) (of_int 29)"
proof -
  have y: "getFullYear utcMinus3 1707566400000 = 2024" "getMonth utcMinus3 1707566400000 + 1 = 2"
    "calendarDaysInMonth 2024 2 = 29"
    by code_simp+
  have h: "100 \<le> getFullYear utcMinus3 1707566400000"
    by (simp add: y)
  have d: "getDashboardStats utcMinus3 1707566400000 sampleDb =
     Inr \<lparr> da_totalToday = 0, da_activeUsers = 2,
           da_avgDaily = 2872985969184627 / 9007199254740992, da_totalMonth = 37 / 4 \<rparr>"
    by code_simp
  have s: "getUserSummaryStats utcMinus3 1707566400000 sampleDb 2 =
     Inr \<lparr> su_totalToday = 0, su_totalMonth = 21 / 4,
           su_avgDaily = 6522454632743477 / 36028797018963968 \<rparr>"
    by code_simp
  show ?thesis
    using avgDaily_is_total_by_month_length [OF h, of sampleDb 2] y h d s by simp
qed

section \<open>The bounds of a month\<close>

lemma DayFromYear_small:
  assumes "100 \<le> y" and "y \<le> 9999"
  shows "- 700000 \<le> DayFromYear y" and "DayFromYear y \<le> 3000000"
  using DayFromYear_bounds [of y] assms by linarith+

lemma MonthStart_small:
  assumes "0 \<le> m" and "m \<le> 11"
  shows "0 \<le> MonthStart l m" and "MonthStart l m \<le> 335"
  using assms by (cases m rule: month_cases; simp add: MonthStart_def)+

lemma toISODate_local_midnight:
  assumes y: "100 \<le> y" "y \<le> 9999" and m: "0 \<le> m" "m \<le> 11"
    and dt: "1 \<le> dt" "dt \<le> calendarDaysInMonth y (m + 1)"
    and tz: "- msPerDay < tza" "tza \<le> 0"
    and d: "d = DayFromYear y + MonthStart (InLeapYear y) m + dt - 1"
  shows "toISODate (TimeClip (UTC tza (MakeDate d 0))) = Inr (isoDate y (m + 1) dt)"
proof -
  let ?t = "UTC tza (MakeDate d 0)"
  have dt31: "dt \<le> 31"
    using dt(2) calendarDaysInMonth_range [of y "m + 1"] by auto
  have b: "- 700000 \<le> d" "d \<le> 3000400"
    using DayFromYear_small [OF y] MonthStart_small [OF m, of "InLeapYear y"] dt(1) dt31
    unfolding d by linarith+
  have "\<bar>?t\<bar> \<le> 8640000000000000"
    using b tz by (simp add: UTC_def MakeDate_def msPerDay_def)
  then have c: "TimeClip ?t = Date ?t"
    by (simp add: TimeClip_def)
  have D: "Day ?t = d"
    by (rule Day_of_local_midnight [OF tz])
  have r: "YearFromDay d = y" "MonthFromDay d = m" "DateFromDay d = dt"
    unfolding d by (rule civil_roundtrip [OF m dt])+
  show ?thesis
    unfolding c by (simp add: toISODate_def isoDateOfTime_def D r)
qed

text \<open>
  On a server whose local time is UTC or behind it by less than a day, the two bounds
  that \<open>getUserMonthlyStats\<close> hands to the query are the first and the last day of the
  month, for the years 100 to 9999.
\<close>

lemma month_bounds_at_or_west_of_utc:
  assumes y: "100 \<le> year" "year \<le> 9999" and m: "1 \<le> month" "month \<le> 12"
    and tz: "- msPerDay < tza" "tza \<le> 0"
  shows "toISODate (newDate tza year (month - 1) 1) = Inr (isoDate year month 1)"
    and "toISODate (newDate tza year month 0) =
           Inr (isoDate year month (calendarDaysInMonth year month))"
proof -
  have m': "0 \<le> month - 1" "month - 1 \<le> 11"
    using m by simp_all
  have n: "1 \<le> calendarDaysInMonth year (month - 1 + 1)"
    using calendarDaysInMonth_range [of year "month - 1 + 1"] by auto
  have yr: "(if 0 \<le> year \<and> year \<le> 99 then 1900 + year else year) = year"
    using y by simp
  have f: "MakeDay year (month - 1) 1 =
      DayFromYear year + MonthStart (InLeapYear year) (month - 1) + 1 - 1"
    by (rule MakeDay_in_year [OF m'])
  have e: "MakeDay year month 0 =
      DayFromYear year + MonthStart (InLeapYear year) (month - 1)
        + calendarDaysInMonth year (month - 1 + 1) - 1"
    using MakeDay_month_end [OF m', of year] by simp
  have "toISODate (TimeClip (UTC tza (MakeDate (MakeDay year (month - 1) 1) 0))) =
      Inr (isoDate year (month - 1 + 1) 1)"
    by (rule toISODate_local_midnight [OF y m' _ n tz f]) simp
  then show "toISODate (newDate tza year (month - 1) 1) = Inr (isoDate year month 1)"
    by (simp add: newDate_def Let_def yr)
  have "toISODate (TimeClip (UTC tza (MakeDate (MakeDay year month 0) 0))) =
      Inr (isoDate year (month - 1 + 1) (calendarDaysInMonth year (month - 1 + 1)))"
    by (rule toISODate_local_midnight [OF y m' n _ tz e]) simp
  then show "toISODate (newDate tza year month 0) =
           Inr (isoDate year month (calendarDaysInMonth year month))"
    by (simp add: newDate_def Let_def yr)
qed

lemma newDate_valid:
  assumes y: "100 \<le> year" "year \<le> 9999" and m: "0 \<le> m" "m \<le> 11"
    and dt: "0 \<le> dt" "dt \<le> 31" and tz: "- msPerDay < tza" "tza < msPerDay"
  shows "\<exists>t. newDate tza year m dt = Date t"
proof -
  let ?d = "MakeDay year m dt"
  have d: "?d = DayFromYear year + MonthStart (InLeapYear year) m + dt - 1"
    by (rule MakeDay_in_year [OF m])
  have b: "- 700001 \<le> ?d" "?d \<le> 3000400"
    using DayFromYear_small [OF y] MonthStart_small [OF m, of "InLeapYear year"] dt
    unfolding d by linarith+
  have "\<bar>UTC tza (MakeDate ?d 0)\<bar> \<le> 8640000000000000"
    using b tz by (simp add: UTC_def MakeDate_def msPerDay_def)
  then show ?thesis
    using y by (simp add: newDate_def TimeClip_def Let_def)
qed

lemma Day_of_local_midnight_east:
  assumes "0 < tza" and "tza < msPerDay"
  shows "Day (UTC tza (MakeDate d 0)) = d - 1"
proof -
  have "d * msPerDay - tza = msPerDay * (d - 1) + (msPerDay - tza)"
    by (simp add: algebra_simps)
  moreover have "0 \<le> msPerDay - tza" "msPerDay - tza < msPerDay"
    using assms by simp_all
  ultimately have "(d * msPerDay - tza) div msPerDay = d - 1"
    using int_div_pos_eq [of "d * msPerDay - tza" msPerDay "d - 1" "msPerDay - tza"] by simp
  then show ?thesis
    by (simp add: Day_def UTC_def MakeDate_def)
qed

text \<open>
  The UTC year of the local midnight of a day is the year of the day or, east of UTC on
  the first of January, the year before.
\<close>

lemma UTC_year_of_local_midnight:
  assumes y: "YearFromDay d = y" and tz: "- msPerDay < tza" "tza < msPerDay"
  shows "y - 1 \<le> getUTCFullYear (UTC tza (MakeDate d 0))"
    and "getUTCFullYear (UTC tza (MakeDate d 0)) \<le> y"
proof -
  have s: "DayFromYear y \<le> d" "d < DayFromYear (y + 1)"
    using YearFromDay_spec [of d] y by simp_all
  have "getUTCFullYear (UTC tza (MakeDate d 0)) = y
      \<or> getUTCFullYear (UTC tza (MakeDate d 0)) = y - 1"
  proof (cases "tza \<le> 0")
    case True
    then show ?thesis
      using Day_of_local_midnight [OF tz(1) True, of d] y by (simp add: getUTCFullYear_def)
  next
    case False
    then have D: "Day (UTC tza (MakeDate d 0)) = d - 1"
      using Day_of_local_midnight_east [OF _ tz(2), of d] by simp
    show ?thesis
    proof (cases "DayFromYear y \<le> d - 1")
      case True
      have "YearFromDay (d - 1) = y"
        by (rule YearFromDay_unique [OF True]) (use s in simp)
      then show ?thesis
        by (simp add: getUTCFullYear_def D)
    next
      case False
      have p: "DayFromYear y = DayFromYear (y - 1) + DaysInYear (y - 1)"
        using DayFromYear_Suc [of "y - 1"] by simp
      have "365 \<le> DaysInYear (y - 1)"
        by (simp add: DaysInYear_def)
      then have a: "DayFromYear (y - 1) \<le> d - 1"
        using p s(1) by linarith
      have b: "d - 1 < DayFromYear (y - 1 + 1)"
        using False by simp
      have "YearFromDay (d - 1) = y - 1"
        by (rule YearFromDay_unique [OF a b])
      then show ?thesis
        by (simp add: getUTCFullYear_def D)
    qed
  qed
  then show "y - 1 \<le> getUTCFullYear (UTC tza (MakeDate d 0))"
    and "getUTCFullYear (UTC tza (MakeDate d 0)) \<le> y"
    by auto
qed

text \<open>
  For the years 100 to 9999, a month of 1 to 12 and a local offset of less than a day,
  \<open>getUserMonthlyStats\<close> returns: both bounds are valid Date objects and the database
  accepts their text.
\<close>

lemma getUserMonthlyStats_returns:
  assumes y: "100 \<le> year" "year \<le> 9999" and m: "1 \<le> month" "month \<le> 12"
    and tz: "- msPerDay < tza" "tza < msPerDay"
  shows "\<exists>st. getUserMonthlyStats tza db userId year month = Inr st"
proof -
  have m': "0 \<le> month - 1" "month - 1 \<le> 11"
    using m by simp_all
  have ny: "\<not> (0 \<le> year \<and> year \<le> 99)"
    using y by simp
  let ?n = "calendarDaysInMonth year (month - 1 + 1)"
  have n: "1 \<le> ?n"
    using calendarDaysInMonth_range [of year "month - 1 + 1"] by auto
  obtain s where s: "newDate tza year (month - 1) 1 = Date s"
    using newDate_valid [OF y m' _ _ tz, of 1] by auto
  have "\<exists>t. newDate tza year month 0 = Date t"
  proof (cases "month = 12")
    case True
    have d: "MakeDay year 12 0 = DayFromYear year + DaysInYear year - 1"
      by (simp add: MakeDay_def Let_def MonthStart_0 DayFromYear_Suc)
    have "0 \<le> DaysInYear year" "DaysInYear year \<le> 366"
      by (simp_all add: DaysInYear_def)
    then have b: "- 700001 \<le> MakeDay year 12 0" "MakeDay year 12 0 \<le> 3000400"
      using DayFromYear_small [OF y] unfolding d by linarith+
    have "\<bar>UTC tza (MakeDate (MakeDay year 12 0) 0)\<bar> \<le> 8640000000000000"
      using b tz by (simp add: UTC_def MakeDate_def msPerDay_def)
    then show ?thesis
      using y True by (simp add: newDate_def TimeClip_def Let_def)
  next
    case False
    then have "0 \<le> month" "month \<le> 11"
      using m by simp_all
    then show ?thesis
      using newDate_valid [OF y _ _ _ _ tz, of month 0] by simp
  qed
  then obtain e where e: "newDate tza year month 0 = Date e"
    by auto
  have se: "s = UTC tza (MakeDate (MakeDay year (month - 1) 1) 0)"
    using s ny by (rule newDate_Date)
  have "newDate tza year (month - 1 + 1) 0 = Date e"
    using e by simp
  then have ee: "e = UTC tza (MakeDate (MakeDay year (month - 1 + 1) 0) 0)"
    using ny by (rule newDate_Date)
  have ds: "MakeDay year (month - 1) 1 =
      DayFromYear year + MonthStart (InLeapYear year) (month - 1) + 1 - 1"
    by (rule MakeDay_in_year [OF m'])
  have de: "MakeDay year (month - 1 + 1) 0 =
      DayFromYear year + MonthStart (InLeapYear year) (month - 1) + ?n - 1"
    using MakeDay_month_end [OF m', of year] by simp
  have ys: "YearFromDay (MakeDay year (month - 1) 1) = year"
    unfolding ds by (rule civil_roundtrip(1) [OF m' _ n]) simp
  have ye: "YearFromDay (MakeDay year (month - 1 + 1) 0) = year"
    unfolding de by (rule civil_roundtrip(1) [OF m' n]) simp
  have "1 \<le> getUTCFullYear s" "getUTCFullYear s \<le> 9999"
    using UTC_year_of_local_midnight [OF ys tz] y unfolding se by linarith+
  then have as: "dateAccepted (isoDateOfTime s)"
    by (rule dateAccepted_isoDateOfTime)
  have "1 \<le> getUTCFullYear e" "getUTCFullYear e \<le> 9999"
    using UTC_year_of_local_midnight [OF ye tz] y unfolding ee by linarith+
  then have ae: "dateAccepted (isoDateOfTime e)"
    by (rule dateAccepted_isoDateOfTime)
  show ?thesis
    by (simp add: getUserMonthlyStats_def Let_def s e getUserWeightRecords_def toISODate_def as ae)
qed

text \<open>
  In local time the two Date objects are the first and the last day of the month, in
  every time zone: it is their UTC text that may fall on the day before.
\<close>

lemma month_bounds_local_days:
  assumes y: "\<not> (0 \<le> year \<and> year \<le> 99)" and m: "1 \<le> month" "month \<le> 12"
    and s: "newDate tza year (month - 1) 1 = Date s"
    and e: "newDate tza year month 0 = Date e"
  shows "getFullYear tza s = year \<and> getMonth tza s = month - 1 \<and> getDate tza s = 1 \<and>
     getFullYear tza e = year \<and> getMonth tza e = month - 1 \<and>
     getDate tza e = calendarDaysInMonth year month"
proof -
  have m': "0 \<le> month - 1" "month - 1 \<le> 11"
    using m by simp_all
  let ?n = "calendarDaysInMonth year (month - 1 + 1)"
  have n: "1 \<le> ?n"
    using calendarDaysInMonth_range [of year "month - 1 + 1"] by auto
  have ds: "Day (LocalTime tza s) =
      DayFromYear year + MonthStart (InLeapYear year) (month - 1) + 1 - 1"
    unfolding newDate_Date [OF s y] Day_LocalTime_UTC by (rule MakeDay_in_year [OF m'])
  have "newDate tza year (month - 1 + 1) 0 = Date e"
    using e by simp
  then have "e = UTC tza (MakeDate (MakeDay year (month - 1 + 1) 0) 0)"
    using y by (rule newDate_Date)
  then have de: "Day (LocalTime tza e) =
      DayFromYear year + MonthStart (InLeapYear year) (month - 1) + ?n - 1"
    using MakeDay_month_end [OF m', of year] by (simp only: Day_LocalTime_UTC)
  have rs: "YearFromDay (Day (LocalTime tza s)) = year"
    "MonthFromDay (Day (LocalTime tza s)) = month - 1"
    "DateFromDay (Day (LocalTime tza s)) = 1"
    unfolding ds using n by (simp_all only: civil_roundtrip [OF m' _ _] order_refl)
  have re: "YearFromDay (Day (LocalTime tza e)) = year"
    "MonthFromDay (Day (LocalTime tza e)) = month - 1"
    "DateFromDay (Day (LocalTime tza e)) = ?n"
    unfolding de using n by (simp_all only: civil_roundtrip [OF m' _ _] order_refl)
  show ?thesis
    using rs re by (simp add: getFullYear_def getMonth_def getDate_def)
qed

text \<open>
  C5. The range of a month is to start on its first day and to end on its true last
  day, so that February 2024 ends on the 29th. The code hands the two local midnights to
  \<^verbatim>\<open>toISOString\<close>, which is UTC, and on a server whose local time is ahead of UTC both
  bounds come out one day early: for February 2024 at UTC+1 the range runs from
  2024-01-31 to 2024-02-28, the record of 2024-02-29 is left out of the month and the
  record of 2024-01-31 is counted in it. At UTC-3 the range is 2024-02-01 to 2024-02-29.
\<close>

theorem february_2024_bounds_depend_on_zone:
  "toISODate (newDate utcPlus1 2024 (2 - 1) 1) = Inr ''2024-01-31'' \<and>
   toISODate (newDate utcPlus1 2024 2 0) = Inr ''2024-02-28'' \<and>
   getUserMonthlyStats utcPlus1 sampleDb 2 2024 2 =
     Inr \<lparr> ms_totalWeight = 10, ms_recordCount = 1,
           ms_dailyStats = [\<lparr> de_date = ''2024-01-31'', de_weight = 10, de_recordCount = 1 \<rparr>] \<rparr> \<and>
   toISODate (newDate utcMinus3 2024 (2 - 1) 1) = Inr ''2024-02-01'' \<and>
   toISODate (newDate utcMinus3 2024 2 0) = Inr ''2024-02-29'' \<and>
   getUserMonthlyStats utcMinus3 sampleDb 2 2024 2 =
     Inr \<lparr> ms_totalWeight = 21 / 4, ms_recordCount = 1,
           ms_dailyStats = [\<lparr> de_date = ''2024-02-29'', de_weight = 21 / 4, de_recordCount = 1 \<rparr>] \<rparr>"
  by code_simp

section \<open>Creating a weight record and reading it back\<close>

lemma insertWeightRecordSchema_parse_drops_workType:
  "insertWeightRecordSchema_parse (x\<lparr> in_workType := w \<rparr>) = insertWeightRecordSchema_parse x"
  by (simp add: insertWeightRecordSchema_parse_def)

text \<open>
  C6. A record created for a user whose work type is \<open>filetagem\<close> is to come back with
  that work type. The admin (user 1) creates a record of weight 12.5 on 2024-03-15 for
  user 2, whose work type is \<open>filetagem\<close>, in a database without records. The daily
  statistics of user 2 for that day then hold exactly one record, of weight 12.5 and
  created by user 1, but the record has the seven columns of \<^verbatim>\<open>weight_records\<close> and no
  work type: the parse drops the work type that the handler passes, and the same record
  comes back when the work type of user 2 is \<open>espinho\<close>.
\<close>

theorem created_record_has_no_work_type:
  "u_workType sampleWorker = Some filetagem \<and>
   insertWeightRecordSchema_parse
     \<lparr> in_userId = 2, in_weight = 25 / 2, in_date = ''2024-03-15'', in_notes = None,
       in_workType = Some filetagem, in_createdBy = 1 \<rparr> =
     Some \<lparr> i_userId = 2, i_weight = 25 / 2, i_date = ''2024-03-15'', i_notes = None,
            i_createdBy = 1 \<rparr> \<and>
   snd (createWeightRecordRoute sampleDbNoRecords (Some 1) sampleBody sampleNow) = Json sampleCreated \<and>
   snd (createWeightRecordRoute sampleDbEspinho (Some 1) sampleBody sampleNow) = Json sampleCreated \<and>
   dailyStatsRoute (fst (createWeightRecordRoute sampleDbNoRecords (Some 1) sampleBody sampleNow))
       (Some 2) (Some 2) (Date (MakeDate (MakeDay 2024 2 15) 0)) =
     Json \<lparr> ds_totalWeight = 25 / 2, ds_recordCount = 1, ds_records = [sampleCreated] \<rparr>"
  by code_simp

section \<open>Updating a user\<close>









text \<open>
  What the column does to the \<^verbatim>\<open>cpf\<close> of an update: a value of 11 characters followed by
  a space is stored without the space; a value of 12 digits is rejected, also when no row
  has the id.
\<close>

lemma update_cpf_and_the_column:
  "map_sum id (map u_cpf \<circ> users \<circ> fst) (updateUser sampleDb 2 sampleSpacedCpfUpdate 5000) =
     Inr [''11111111111'', ''12345678901'', ''33333333333''] \<and>
   updateUser sampleDb 99 (sampleCpfUpdate\<lparr> upd_cpf := Some ''123456789012'' \<rparr>) 5000 = Inl DbError \<and>
   updateUser sampleDb 99 sampleCpfUpdate 5000 = Inr (sampleDb, None)"
  by (simp add: updateUser_def updateRejected_def cpfStored_def applyUpdate_def
      sampleSpacedCpfUpdate_def sampleCpfUpdate_def
      sampleDb_def sampleAdmin_def sampleWorker_def sampleInactive_def)

text \<open>
  The handler passes the body of the request as it comes, and a body with the key
  \<^verbatim>\<open>id\<close> changes the id of the row: user 2 becomes user 9.
\<close>

lemma update_with_id_changes_id:
  "map_sum id (map u_id \<circ> users \<circ> fst) (updateUser sampleDbNoRecords 2 sampleIdUpdate 5000) =
     Inr [1, 9, 3] \<and>
   map u_id (users sampleDbNoRecords) = [1, 2, 3]"
  by (simp add: updateUser_def updateRejected_def cpfStored_def applyUpdate_def
      sampleIdUpdate_def sampleDbNoRecords_def
      sampleDb_def sampleAdmin_def sampleWorker_def sampleInactive_def)




end
